theory Spec2Isabelle
  imports Main "HOL-Library.Char_ord" "HOL-Library.List_Lexorder" "HOL-Library.Sublist"
    "HOL-Library.Multiset"
begin

section \<open>The migration runner of \<open>scripts/run_migrations.py\<close>\<close>

text \<open>
  The runner talks to three things outside itself: a PostgreSQL database (through one
  psycopg2 connection that is not in autocommit mode), the migrations directory, and
  standard output. Each of them is a component of the model:
  \<^item> the database is a record of the schema objects that exist and of the rows of the
    table \<open>schema_migrations\<close> (\<open>None\<close> while that table does not exist);
  \<^item> the connection holds the committed database and the database as the open
    transaction sees it; \<open>commit\<close> copies the second onto the first and
    \<open>rollback\<close> the first onto the second;
  \<^item> a directory is the list of its entries, as \<open>glob\<close> meets them, each a name
    with the parsed text of the script, or no text when \<open>open\<close>/\<open>read\<close> raises
    (no permission, not UTF-8, a subdirectory whose name ends in \<open>.sql\<close>);
  \<^item> every call that reaches the database or the file system and every informative
    line printed is appended to a trace, in the order the source performs them
    (separator lines, titles and blank lines are left out).
\<close>

subsection \<open>Scripts and the database\<close>

text \<open>
  What a script does is PostgreSQL's business, not the runner's, which sends the text of
  the file to the server as it is. A script is a list of statements over named schema
  objects: a statement creates an object, drops one, is rejected by the server with a
  message, or ends the transaction it runs in: a \<open>COMMIT\<close> of the script's own makes
  durable what the open transaction holds, a \<open>ROLLBACK\<close> discards it, and the
  statements after either run in a transaction of their own. No statement touches
  \<open>schema_migrations\<close>.
\<close>

datatype stmt = Create string | Drop string | Invalid string | Commit | Rollback

type_synonym script = "stmt list"
type_synonym filename = string
type_synonym migration_id = string
type_synonym sql_file = "filename \<times> script option"

record database =
  objects :: "string list"
  schema_migrations :: "migration_id list option"

datatype event =
    Print_DryRunMode
  | Print_ConnectError
  | Print_FailedToConnect
  | Print_Connected
  | Print_DirNotFound
  | Print_NoFiles
  | Print_Found nat
  | Print_AlreadyApplied nat
  | Print_Skipping filename
  | Print_WouldApply filename
  | Print_Applying filename
  | Print_Success filename
  | Print_Failed filename string
  | Print_Unexpected filename string
  | Print_Stopping
  | Print_SummaryWould nat
  | Print_SummaryApplied nat
  | Print_SummaryFailed nat
  | File_Open filename
  | Sql_CreateTable
  | Sql_Select
  | Sql_Script script "string option"
  | Sql_Insert migration_id "string option"
  | Sql_Commit
  | Sql_Rollback
  | Conn_Close

record world =
  committed :: database
  working :: database
  trace :: "event list"

datatype result = Return int | SysExit int | Uncaught string

definition emit :: "event \<Rightarrow> world \<Rightarrow> world" where
  "emit e w = w\<lparr>trace := trace w @ [e]\<rparr>"

definition commit :: "world \<Rightarrow> world" where
  "commit w = w\<lparr>committed := working w, trace := trace w @ [Sql_Commit]\<rparr>"

definition rollback :: "world \<Rightarrow> world" where
  "rollback w = w\<lparr>working := committed w, trace := trace w @ [Sql_Rollback]\<rparr>"

text \<open>
  A statement acts on the committed database and on the database as the open transaction
  sees it, in this order in the pair.
\<close>

fun exec_stmt :: "stmt \<Rightarrow> database \<times> database \<Rightarrow> string + database \<times> database" where
  "exec_stmt (Create n) (durable, current) =
     (if n \<in> set (objects current) then Inl (''relation already exists: '' @ n)
      else Inr (durable, current\<lparr>objects := objects current @ [n]\<rparr>))"
| "exec_stmt (Drop n) (durable, current) =
     (if n \<in> set (objects current)
      then Inr (durable, current\<lparr>objects := removeAll n (objects current)\<rparr>)
      else Inl (''relation does not exist: '' @ n))"
| "exec_stmt (Invalid msg) (durable, current) = Inl msg"
| "exec_stmt Commit (durable, current) = Inr (current, current)"
| "exec_stmt Rollback (durable, current) = Inr (durable, durable)"

text \<open>
  The statements of one \<open>cur.execute\<close> run in order. The first one that is rejected
  ends the call; what the earlier ones did since the last commit is still in the
  transaction at that point, and only a rollback removes it.
\<close>

fun exec_stmts ::
  "script \<Rightarrow> database \<times> database \<Rightarrow> (string \<times> database \<times> database) + database \<times> database" where
  "exec_stmts [] s = Inr s"
| "exec_stmts (x # xs) s =
     (case exec_stmt x s of
        Inl e \<Rightarrow> Inl (e, s)
      | Inr s' \<Rightarrow> exec_stmts xs s')"

text \<open>
  \<open>cur.execute(migration_sql)\<close>: psycopg2 raises \<open>ProgrammingError\<close> for a text with no
  statement in it, and the server's error otherwise. The result is the error raised,
  if any, with the connection as the call leaves it.
\<close>

definition cursor_execute :: "script \<Rightarrow> world \<Rightarrow> string option \<times> world" where
  "cursor_execute migration_sql w =
     (if migration_sql = [] then
        (Some ''cannot execute an empty query'',
         emit (Sql_Script migration_sql (Some ''cannot execute an empty query'')) w)
      else
        (case exec_stmts migration_sql (committed w, working w) of
           Inl (e, durable, current) \<Rightarrow>
             (Some e, emit (Sql_Script migration_sql (Some e))
                        (w\<lparr>committed := durable, working := current\<rparr>))
         | Inr (durable, current) \<Rightarrow>
             (None, emit (Sql_Script migration_sql None)
                      (w\<lparr>committed := durable, working := current\<rparr>))))"

subsection \<open>The bookkeeping table\<close>

text \<open>\<open>CREATE TABLE IF NOT EXISTS schema_migrations (...)\<close>, then \<open>conn.commit()\<close>.\<close>

definition create_migrations_table :: "world \<Rightarrow> world" where
  "create_migrations_table w =
     commit (emit Sql_CreateTable
       (w\<lparr>working := (working w)\<lparr>schema_migrations :=
            (case schema_migrations (working w) of
               None \<Rightarrow> Some []
             | Some rows \<Rightarrow> Some rows)\<rparr>\<rparr>))"

text \<open>
  \<open>SELECT migration_id FROM schema_migrations\<close> after the table has been created; the
  rows become a Python set. The query raises when the table does not exist.
\<close>

definition get_applied_migrations :: "world \<Rightarrow> string + (migration_id set \<times> world)" where
  "get_applied_migrations w =
     (let w1 = create_migrations_table w in
      case schema_migrations (working w1) of
        None \<Rightarrow> Inl ''relation schema_migrations does not exist''
      | Some rows \<Rightarrow> Inr (set rows, emit Sql_Select w1))"

text \<open>
  \<open>INSERT INTO schema_migrations (migration_id) VALUES (%s) ON CONFLICT DO NOTHING\<close>,
  then \<open>conn.commit()\<close>. \<open>migration_id\<close> is the primary key: a row that is already
  there is left alone. The insertion raises when the table does not exist. The column
  is a \<open>VARCHAR(255)\<close>; an identity comes from a file name, which a file system keeps
  below that length, so the limit is not modelled.
\<close>

definition mark_migration_applied :: "world \<Rightarrow> migration_id \<Rightarrow> (string \<times> world) + world" where
  "mark_migration_applied w migration_id =
     (case schema_migrations (working w) of
        None \<Rightarrow>
          Inl (''relation schema_migrations does not exist'',
               emit (Sql_Insert migration_id (Some ''relation schema_migrations does not exist'')) w)
      | Some rows \<Rightarrow>
          Inr (commit (emit (Sql_Insert migration_id None)
                 (w\<lparr>working := (working w)\<lparr>schema_migrations :=
                      Some (if migration_id \<in> set rows then rows else rows @ [migration_id])\<rparr>\<rparr>))))"

subsection \<open>The catalog\<close>

text \<open>
  \<open>MIGRATIONS_DIR.glob("*.sql")\<close> keeps the entries of the directory itself whose name
  ends in \<open>.sql\<close> (pathlib's \<open>*\<close> also matches the empty string and a leading dot);
  \<open>sorted\<close> orders the paths, which differ in their last component only, by that
  name, character by character. A missing directory ends the process with status 1.
\<close>

definition matches_sql :: "filename \<Rightarrow> bool" where
  "matches_sql name = suffix ''.sql'' name"

definition get_migration_files :: "sql_file list option \<Rightarrow> (int \<times> event) + sql_file list" where
  "get_migration_files migrations_dir =
     (case migrations_dir of
        None \<Rightarrow> Inl (1, Print_DirNotFound)
      | Some entries \<Rightarrow> Inr (sort_key fst (filter (\<lambda>f. matches_sql (fst f)) entries)))"

text \<open>
  \<open>Path(filename).stem\<close> for a name that is a single path component, as
  \<open>migration_file.name\<close> is: the name up to its last dot, provided that dot is neither
  the first nor the last character; the whole name otherwise.
\<close>

fun rfind :: "char \<Rightarrow> string \<Rightarrow> nat option" where
  "rfind c [] = None"
| "rfind c (x # xs) =
     (case rfind c xs of
        Some i \<Rightarrow> Some (Suc i)
      | None \<Rightarrow> if x = c then Some 0 else None)"

definition stem :: "filename \<Rightarrow> string" where
  "stem name =
     (case rfind (CHR ''.'') name of
        None \<Rightarrow> name
      | Some i \<Rightarrow> if 0 < i \<and> i < length name - 1 then take i name else name)"

definition extract_migration_id :: "filename \<Rightarrow> migration_id" where
  "extract_migration_id filename = stem filename"

subsection \<open>Applying one migration\<close>

text \<open>
  The \<open>try\<close> block reads the file, executes its text, commits, and marks the identity
  applied. \<open>except psycopg2.Error\<close> catches what \<open>cur.execute\<close> raised, in the script
  or in the insertion; \<open>except Exception\<close> catches the rest, which here is the failure to
  read the file. Both roll back and return \<open>False\<close>.
\<close>

definition apply_migration :: "world \<Rightarrow> sql_file \<Rightarrow> bool \<times> world" where
  "apply_migration w migration_file =
     (let name = fst migration_file;
          migration_id = extract_migration_id name;
          w1 = emit (File_Open name) (emit (Print_Applying name) w)
      in case snd migration_file of
           None \<Rightarrow>
             (False, emit (Print_Unexpected name ''cannot read file'') (rollback w1))
         | Some migration_sql \<Rightarrow>
             (case cursor_execute migration_sql w1 of
                (Some e, w2) \<Rightarrow> (False, emit (Print_Failed name e) (rollback w2))
              | (None, w2) \<Rightarrow>
                  (case mark_migration_applied (commit w2) migration_id of
                     Inl (e, w3) \<Rightarrow> (False, emit (Print_Failed name e) (rollback w3))
                   | Inr w3 \<Rightarrow> (True, emit (Print_Success name) w3))))"

subsection \<open>The run\<close>

text \<open>
  The \<open>for\<close> loop of \<open>run_migrations\<close> over the catalog, with \<open>applied_count\<close>,
  \<open>failed_count\<close> and the connection as its state; \<open>break\<close> is the branch that does
  not recurse.
\<close>

fun apply_pending ::
  "bool \<Rightarrow> migration_id set \<Rightarrow> sql_file list \<Rightarrow> nat \<times> nat \<times> world \<Rightarrow> nat \<times> nat \<times> world" where
  "apply_pending dry_run applied_migrations [] s = s"
| "apply_pending dry_run applied_migrations (migration_file # rest) (applied_count, failed_count, w) =
     (if extract_migration_id (fst migration_file) \<in> applied_migrations then
        apply_pending dry_run applied_migrations rest
          (applied_count, failed_count, emit (Print_Skipping (fst migration_file)) w)
      else if dry_run then
        apply_pending dry_run applied_migrations rest
          (applied_count + 1, failed_count, emit (Print_WouldApply (fst migration_file)) w)
      else
        (case apply_migration w migration_file of
           (True, w') \<Rightarrow>
             apply_pending dry_run applied_migrations rest (applied_count + 1, failed_count, w')
         | (False, w') \<Rightarrow>
             (applied_count, failed_count + 1, emit Print_Stopping w')))"

text \<open>The summary printed after the loop, and \<open>conn.close()\<close>.\<close>

definition summary :: "bool \<Rightarrow> nat \<Rightarrow> nat \<Rightarrow> world \<Rightarrow> world" where
  "summary dry_run applied_count failed_count w =
     emit Conn_Close
       (if dry_run then emit (Print_SummaryWould applied_count) w
        else if failed_count > 0 then
          emit (Print_SummaryFailed failed_count) (emit (Print_SummaryApplied applied_count) w)
        else emit (Print_SummaryApplied applied_count) w)"

text \<open>
  A new connection sees the committed database and has nothing pending. \<open>reachable\<close>
  says whether \<open>psycopg2.connect\<close> succeeds; \<open>migrations_dir\<close> is \<open>None\<close> when the
  directory does not exist.
\<close>

definition get_db_connection :: "bool \<Rightarrow> world \<Rightarrow> world + world" where
  "get_db_connection reachable w =
     (if reachable then Inr (w\<lparr>working := committed w\<rparr>)
      else Inl (emit Print_ConnectError w))"

definition init_world :: "database \<Rightarrow> world" where
  "init_world db = \<lparr>committed = db, working = db, trace = []\<rparr>"

definition run_migrations ::
  "bool \<Rightarrow> bool \<Rightarrow> sql_file list option \<Rightarrow> database \<Rightarrow> result \<times> world" where
  "run_migrations dry_run reachable migrations_dir db =
     (let w0 = (if dry_run then emit Print_DryRunMode (init_world db) else init_world db) in
      case get_db_connection reachable w0 of
        Inl w1 \<Rightarrow> (Return 1, emit Print_FailedToConnect w1)
      | Inr conn \<Rightarrow>
          (let w1 = emit Print_Connected conn in
           case get_migration_files migrations_dir of
             Inl (code, msg) \<Rightarrow> (SysExit code, emit msg w1)
           | Inr migration_files \<Rightarrow>
               if migration_files = [] then (Return 0, emit Print_NoFiles w1)
               else
                 (case get_applied_migrations (emit (Print_Found (length migration_files)) w1) of
                    Inl e \<Rightarrow> (Uncaught e, emit (Print_Found (length migration_files)) w1)
                  | Inr (applied_migrations, w2) \<Rightarrow>
                      (case apply_pending dry_run applied_migrations migration_files
                              (0, 0, emit (Print_AlreadyApplied (card applied_migrations)) w2) of
                         (applied_count, failed_count, w3) \<Rightarrow>
                           (Return (if failed_count = 0 then 0 else 1),
                            summary dry_run applied_count failed_count w3)))))"

subsection \<open>Reading the trace and the database\<close>

text \<open>
  What a run did is read off its trace: the files the loop came to (one of the three
  lines it prints first for a file), those it skipped, those it opened, the scripts it
  sent to the server, the files whose application failed, and the identities whose
  insertion into \<open>schema_migrations\<close> succeeded.
\<close>

fun considered :: "event list \<Rightarrow> filename list" where
  "considered [] = []"
| "considered (Print_Skipping n # es) = n # considered es"
| "considered (Print_WouldApply n # es) = n # considered es"
| "considered (Print_Applying n # es) = n # considered es"
| "considered (e # es) = considered es"

fun skipped :: "event list \<Rightarrow> filename list" where
  "skipped [] = []"
| "skipped (Print_Skipping n # es) = n # skipped es"
| "skipped (e # es) = skipped es"

fun attempted :: "event list \<Rightarrow> filename list" where
  "attempted [] = []"
| "attempted (File_Open n # es) = n # attempted es"
| "attempted (e # es) = attempted es"

fun executed :: "event list \<Rightarrow> script list" where
  "executed [] = []"
| "executed (Sql_Script b r # es) = b # executed es"
| "executed (e # es) = executed es"

fun failed :: "event list \<Rightarrow> filename list" where
  "failed [] = []"
| "failed (Print_Failed n e # es) = n # failed es"
| "failed (Print_Unexpected n e # es) = n # failed es"
| "failed (e # es) = failed es"

fun inserted :: "event list \<Rightarrow> migration_id list" where
  "inserted [] = []"
| "inserted (Sql_Insert i None # es) = i # inserted es"
| "inserted (e # es) = inserted es"

text \<open>The statements sent to the database, of any kind.\<close>

fun db_calls :: "event list \<Rightarrow> event list" where
  "db_calls [] = []"
| "db_calls (Sql_CreateTable # es) = Sql_CreateTable # db_calls es"
| "db_calls (Sql_Select # es) = Sql_Select # db_calls es"
| "db_calls (Sql_Script b r # es) = Sql_Script b r # db_calls es"
| "db_calls (Sql_Insert i r # es) = Sql_Insert i r # db_calls es"
| "db_calls (Sql_Commit # es) = Sql_Commit # db_calls es"
| "db_calls (Sql_Rollback # es) = Sql_Rollback # db_calls es"
| "db_calls (e # es) = db_calls es"

text \<open>A trace without the lines that report a skipped file.\<close>

fun without_skips :: "event list \<Rightarrow> event list" where
  "without_skips [] = []"
| "without_skips (Print_Skipping n # es) = without_skips es"
| "without_skips (e # es) = e # without_skips es"

text \<open>The identities recorded as applied: the rows of the table, none while it is absent.\<close>

definition rows :: "database \<Rightarrow> migration_id list" where
  "rows db = (case schema_migrations db of None \<Rightarrow> [] | Some rs \<Rightarrow> rs)"

text \<open>
  \<open>after_script_commit i hist\<close>: the three events before this point, latest first, are
  a commit, a script that the server executed without error, and the opening of the file
  whose identity is \<open>i\<close>. \<open>inserts_follow_commit\<close> asks this of every insertion into
  \<open>schema_migrations\<close> in a trace, attempted or done.
\<close>

definition after_script_commit :: "migration_id \<Rightarrow> event list \<Rightarrow> bool" where
  "after_script_commit i hist =
     (case hist of
        c # s # p # _ \<Rightarrow>
          c = Sql_Commit \<and>
          (case s of Sql_Script b r \<Rightarrow> r = None | _ \<Rightarrow> False) \<and>
          (case p of File_Open n \<Rightarrow> extract_migration_id n = i | _ \<Rightarrow> False)
      | _ \<Rightarrow> False)"

fun inserts_checked :: "event list \<Rightarrow> event list \<Rightarrow> bool" where
  "inserts_checked hist [] = True"
| "inserts_checked hist (e # es) =
     ((case e of Sql_Insert i r \<Rightarrow> after_script_commit i hist | _ \<Rightarrow> True) \<and>
      inserts_checked (e # hist) es)"

definition inserts_follow_commit :: "event list \<Rightarrow> bool" where
  "inserts_follow_commit tr = inserts_checked [] tr"

text \<open>
  The connection as the loop of \<open>run_migrations\<close> finds it when the database is
  reachable and the catalog has \<open>n\<close> files, \<open>n > 0\<close>: the table exists, nothing is
  pending, and the lines up to \<open>Already applied\<close> have been printed.
\<close>

definition loop_entry :: "bool \<Rightarrow> database \<Rightarrow> nat \<Rightarrow> world" where
  "loop_entry dry_run db n =
     \<lparr>committed = db\<lparr>schema_migrations := Some (rows db)\<rparr>,
      working = db\<lparr>schema_migrations := Some (rows db)\<rparr>,
      trace = (if dry_run then [Print_DryRunMode] else []) @
              [Print_Connected, Print_Found n, Sql_CreateTable, Sql_Commit, Sql_Select,
               Print_AlreadyApplied (card (set (rows db)))]\<rparr>"

text \<open>The files of a catalog that a run has to apply: those whose identity is not recorded.\<close>

definition pending :: "migration_id set \<Rightarrow> sql_file list \<Rightarrow> sql_file list" where
  "pending applied_migrations fs =
     filter (\<lambda>f. extract_migration_id (fst f) \<notin> applied_migrations) fs"

section \<open>Properties\<close>

subsection \<open>Connections, traces, identities\<close>

lemma emit_fields [simp]:
  "committed (emit e w) = committed w"
  "working (emit e w) = working w"
  "trace (emit e w) = trace w @ [e]"
  by (simp_all add: emit_def)

lemma commit_fields [simp]:
  "committed (commit w) = working w"
  "working (commit w) = working w"
  "trace (commit w) = trace w @ [Sql_Commit]"
  by (simp_all add: commit_def)

lemma rollback_fields [simp]:
  "committed (rollback w) = committed w"
  "working (rollback w) = committed w"
  "trace (rollback w) = trace w @ [Sql_Rollback]"
  by (simp_all add: rollback_def)

lemma considered_append [simp]: "considered (xs @ ys) = considered xs @ considered ys"
  by (induction xs rule: considered.induct) simp_all

lemma skipped_append [simp]: "skipped (xs @ ys) = skipped xs @ skipped ys"
  by (induction xs rule: skipped.induct) simp_all

lemma attempted_append [simp]: "attempted (xs @ ys) = attempted xs @ attempted ys"
  by (induction xs rule: attempted.induct) simp_all

lemma executed_append [simp]: "executed (xs @ ys) = executed xs @ executed ys"
  by (induction xs rule: executed.induct) simp_all

lemma failed_append [simp]: "failed (xs @ ys) = failed xs @ failed ys"
  by (induction xs rule: failed.induct) simp_all

lemma inserted_append [simp]: "inserted (xs @ ys) = inserted xs @ inserted ys"
  by (induction xs rule: inserted.induct) simp_all

lemma db_calls_append [simp]: "db_calls (xs @ ys) = db_calls xs @ db_calls ys"
  by (induction xs rule: db_calls.induct) simp_all

lemma without_skips_append [simp]:
  "without_skips (xs @ ys) = without_skips xs @ without_skips ys"
  by (induction xs rule: without_skips.induct) simp_all

lemma rfind_absent: "c \<notin> set ys \<Longrightarrow> rfind c ys = None"
  by (induction ys) auto

lemma rfind_last: "c \<notin> set ys \<Longrightarrow> rfind c (xs @ c # ys) = Some (length xs)"
  by (induction xs) (simp_all add: rfind_absent)

lemma stem_sql: "base \<noteq> [] \<Longrightarrow> stem (base @ ''.sql'') = base"
  using rfind_last [of "CHR ''.''" "''sql''" base] by (simp add: stem_def)

lemma exec_stmt_kept:
  assumes "exec_stmt x (c, k) = Inr (c', k')"
  shows "schema_migrations k' = schema_migrations k \<or> schema_migrations k' = schema_migrations c"
    and "schema_migrations c' = schema_migrations c \<or> schema_migrations c' = schema_migrations k"
    and "x \<noteq> Commit \<Longrightarrow> c' = c"
  using assms by (cases x; auto split: if_splits)+

lemma exec_stmts_kept:
  assumes "exec_stmts xs (c, k) = Inr (c', k') \<or> exec_stmts xs (c, k) = Inl (e, c', k')"
  shows "(schema_migrations k' = schema_migrations k \<or>
          schema_migrations k' = schema_migrations c) \<and>
         (schema_migrations c' = schema_migrations c \<or>
          schema_migrations c' = schema_migrations k) \<and>
         (Commit \<notin> set xs \<longrightarrow> c' = c)"
  using assms
proof (induction xs arbitrary: c k)
  case Nil
  then show ?case by simp
next
  case (Cons x xs)
  show ?case
  proof (cases "exec_stmt x (c, k)")
    case (Inl m)
    with Cons.prems show ?thesis by simp
  next
    case (Inr s)
    obtain c1 k1 where s: "s = (c1, k1)" by (cases s)
    from Inr s Cons.prems
    have "exec_stmts xs (c1, k1) = Inr (c', k') \<or> exec_stmts xs (c1, k1) = Inl (e, c', k')"
      by simp
    from Cons.IH [OF this] exec_stmt_kept [OF Inr [unfolded s]]
    show ?thesis by auto
  qed
qed


lemma cursor_execute_emit:
  "fst (cursor_execute b (emit e w)) = fst (cursor_execute b w)"
  "committed (snd (cursor_execute b (emit e w))) = committed (snd (cursor_execute b w))"
  "working (snd (cursor_execute b (emit e w))) = working (snd (cursor_execute b w))"
  by (simp_all add: cursor_execute_def emit_def split: sum.splits prod.splits)

lemma cursor_execute_trace:
  "trace (snd (cursor_execute b w)) = trace w @ [Sql_Script b (fst (cursor_execute b w))]"
  by (simp add: cursor_execute_def emit_def split: sum.splits prod.splits)

lemma cursor_execute_kept:
  "(schema_migrations (working (snd (cursor_execute b w))) = schema_migrations (working w) \<or>
    schema_migrations (working (snd (cursor_execute b w))) = schema_migrations (committed w)) \<and>
   (schema_migrations (committed (snd (cursor_execute b w))) = schema_migrations (committed w) \<or>
    schema_migrations (committed (snd (cursor_execute b w))) = schema_migrations (working w))"
proof (cases "b = []")
  case True
  then show ?thesis by (simp add: cursor_execute_def)
next
  case False
  show ?thesis
  proof (cases "exec_stmts b (committed w, working w)")
    case (Inl r)
    obtain e c k where r: "r = (e, c, k)" by (cases r)
    from exec_stmts_kept [of b "committed w" "working w" c k e] Inl r False
    show ?thesis by (simp add: cursor_execute_def)
  next
    case (Inr r)
    obtain c k where r: "r = (c, k)" by (cases r)
    from exec_stmts_kept [of b "committed w" "working w" c k undefined] Inr r False
    show ?thesis by (simp add: cursor_execute_def)
  qed
qed

lemma cursor_execute_table:
  assumes "working w = committed w"
  shows "schema_migrations (working (snd (cursor_execute b w))) = schema_migrations (committed w)"
  using cursor_execute_kept [of b w] assms by auto




lemma cursor_execute_same:
  assumes "committed w = committed v" and "working w = working v"
  shows "fst (cursor_execute b w) = fst (cursor_execute b v)"
    and "committed (snd (cursor_execute b w)) = committed (snd (cursor_execute b v))"
    and "working (snd (cursor_execute b w)) = working (snd (cursor_execute b v))"
  using assms
  by (simp_all add: cursor_execute_def emit_def split: sum.splits prod.splits)

subsection \<open>The four ways \<open>apply_migration\<close> can go\<close>

lemma apply_migration_unreadable:
  assumes "snd f = None"
  shows "fst (apply_migration w f) = False"
    and "committed (snd (apply_migration w f)) = committed w"
    and "working (snd (apply_migration w f)) = committed w"
    and "trace (snd (apply_migration w f)) =
           trace w @ [Print_Applying (fst f), File_Open (fst f), Sql_Rollback,
                      Print_Unexpected (fst f) ''cannot read file'']"
  using assms by (simp_all add: apply_migration_def Let_def)

lemma apply_migration_script_error:
  assumes "snd f = Some b" and "fst (cursor_execute b w) = Some e"
  shows "fst (apply_migration w f) = False"
    and "committed (snd (apply_migration w f)) = committed (snd (cursor_execute b w))"
    and "working (snd (apply_migration w f)) = committed (snd (cursor_execute b w))"
    and "trace (snd (apply_migration w f)) =
           trace w @ [Print_Applying (fst f), File_Open (fst f), Sql_Script b (Some e),
                      Sql_Rollback, Print_Failed (fst f) e]"
proof -
  define w1 where "w1 = emit (File_Open (fst f)) (emit (Print_Applying (fst f)) w)"
  define w2 where "w2 = snd (cursor_execute b w1)"
  have c: "cursor_execute b w1 = (Some e, w2)"
    using assms(2) by (simp add: w1_def w2_def prod_eq_iff cursor_execute_emit)
  have w2: "committed w2 = committed (snd (cursor_execute b w))"
    "trace w2 = trace w @ [Print_Applying (fst f), File_Open (fst f), Sql_Script b (Some e)]"
    using assms(2) by (simp_all add: w1_def w2_def cursor_execute_emit cursor_execute_trace)
  have a: "apply_migration w f = (False, emit (Print_Failed (fst f) e) (rollback w2))"
    using assms(1) c by (simp add: apply_migration_def Let_def w1_def)
  show "fst (apply_migration w f) = False"
    and "committed (snd (apply_migration w f)) = committed (snd (cursor_execute b w))"
    and "working (snd (apply_migration w f)) = committed (snd (cursor_execute b w))"
    and "trace (snd (apply_migration w f)) =
           trace w @ [Print_Applying (fst f), File_Open (fst f), Sql_Script b (Some e),
                      Sql_Rollback, Print_Failed (fst f) e]"
    by (simp_all add: a w2)
qed

lemma apply_migration_script_ok:
  assumes "snd f = Some b" and "fst (cursor_execute b w) = None"
  shows "apply_migration w f =
           (case mark_migration_applied
                   (commit (snd (cursor_execute b
                      (emit (File_Open (fst f)) (emit (Print_Applying (fst f)) w)))))
                   (extract_migration_id (fst f)) of
              Inl (e, w3) \<Rightarrow> (False, emit (Print_Failed (fst f) e) (rollback w3))
            | Inr w3 \<Rightarrow> (True, emit (Print_Success (fst f)) w3))"
proof -
  let ?w1 = "emit (File_Open (fst f)) (emit (Print_Applying (fst f)) w)"
  obtain r w2 where c: "cursor_execute b ?w1 = (r, w2)" by (cases "cursor_execute b ?w1")
  have r: "r = None"
    using c assms(2) cursor_execute_emit(1) [of b] by (metis fst_conv)
  show ?thesis using assms(1) c r by (simp add: apply_migration_def Let_def)
qed

lemma apply_migration_no_table:
  assumes "snd f = Some b" and "fst (cursor_execute b w) = None"
    and "schema_migrations (working (snd (cursor_execute b w))) = None"
  shows "fst (apply_migration w f) = False"
    and "committed (snd (apply_migration w f)) = working (snd (cursor_execute b w))"
    and "working (snd (apply_migration w f)) = working (snd (cursor_execute b w))"
    and "trace (snd (apply_migration w f)) =
           trace w @ [Print_Applying (fst f), File_Open (fst f), Sql_Script b None,
                      Sql_Commit,
                      Sql_Insert (extract_migration_id (fst f))
                        (Some ''relation schema_migrations does not exist''),
                      Sql_Rollback,
                      Print_Failed (fst f) ''relation schema_migrations does not exist'']"
proof -
  let ?w1 = "emit (File_Open (fst f)) (emit (Print_Applying (fst f)) w)"
  have f1: "fst (cursor_execute b ?w1) = None"
    using assms(2) by (simp add: cursor_execute_emit)
  have t: "schema_migrations (working (commit (snd (cursor_execute b ?w1)))) = None"
    using assms(3) by (simp add: cursor_execute_emit)
  show "fst (apply_migration w f) = False"
    and "committed (snd (apply_migration w f)) = working (snd (cursor_execute b w))"
    and "working (snd (apply_migration w f)) = working (snd (cursor_execute b w))"
    and "trace (snd (apply_migration w f)) =
           trace w @ [Print_Applying (fst f), File_Open (fst f), Sql_Script b None,
                      Sql_Commit,
                      Sql_Insert (extract_migration_id (fst f))
                        (Some ''relation schema_migrations does not exist''),
                      Sql_Rollback,
                      Print_Failed (fst f) ''relation schema_migrations does not exist'']"
    using t f1
    by (simp_all add: apply_migration_script_ok [OF assms(1,2)] mark_migration_applied_def
        cursor_execute_emit cursor_execute_trace)
qed

lemma apply_migration_ok:
  assumes "snd f = Some b" and "fst (cursor_execute b w) = None"
    and "schema_migrations (working (snd (cursor_execute b w))) = Some rs"
  shows "fst (apply_migration w f) = True"
    and "committed (snd (apply_migration w f)) =
           (working (snd (cursor_execute b w)))\<lparr>schema_migrations :=
              Some (if extract_migration_id (fst f) \<in> set rs then rs
                    else rs @ [extract_migration_id (fst f)])\<rparr>"
    and "working (snd (apply_migration w f)) = committed (snd (apply_migration w f))"
    and "trace (snd (apply_migration w f)) =
           trace w @ [Print_Applying (fst f), File_Open (fst f), Sql_Script b None,
                      Sql_Commit, Sql_Insert (extract_migration_id (fst f)) None,
                      Sql_Commit, Print_Success (fst f)]"
proof -
  let ?w1 = "emit (File_Open (fst f)) (emit (Print_Applying (fst f)) w)"
  have f1: "fst (cursor_execute b ?w1) = None"
    using assms(2) by (simp add: cursor_execute_emit)
  have t: "schema_migrations (working (commit (snd (cursor_execute b ?w1)))) = Some rs"
    using assms(3) by (simp add: cursor_execute_emit)
  show "fst (apply_migration w f) = True"
    and "committed (snd (apply_migration w f)) =
           (working (snd (cursor_execute b w)))\<lparr>schema_migrations :=
              Some (if extract_migration_id (fst f) \<in> set rs then rs
                    else rs @ [extract_migration_id (fst f)])\<rparr>"
    and "working (snd (apply_migration w f)) = committed (snd (apply_migration w f))"
    and "trace (snd (apply_migration w f)) =
           trace w @ [Print_Applying (fst f), File_Open (fst f), Sql_Script b None,
                      Sql_Commit, Sql_Insert (extract_migration_id (fst f)) None,
                      Sql_Commit, Print_Success (fst f)]"
    using t f1
    by (simp_all add: apply_migration_script_ok [OF assms(1,2)] mark_migration_applied_def
        cursor_execute_emit cursor_execute_trace)
qed

lemma apply_migration_cases:
  obtains (unreadable) "snd f = None"
  | (script_error) b e where "snd f = Some b" "fst (cursor_execute b w) = Some e"
  | (no_table) b where "snd f = Some b" "fst (cursor_execute b w) = None"
      "schema_migrations (working (snd (cursor_execute b w))) = None"
  | (ok) b rs where "snd f = Some b" "fst (cursor_execute b w) = None"
      "schema_migrations (working (snd (cursor_execute b w))) = Some rs"
proof (cases "snd f")
  case None
  then show ?thesis by (rule unreadable)
next
  case (Some b)
  show ?thesis
  proof (cases "fst (cursor_execute b w)")
    case None
    then show ?thesis
      using Some no_table ok
      by (cases "schema_migrations (working (snd (cursor_execute b w)))") auto
  next
    case (Some e)
    then show ?thesis using \<open>snd f = Some b\<close> script_error by blast
  qed
qed

lemma apply_migration_observed:
  "considered (trace (snd (apply_migration w f))) = considered (trace w) @ [fst f]"
  "skipped (trace (snd (apply_migration w f))) = skipped (trace w)"
  "attempted (trace (snd (apply_migration w f))) = attempted (trace w) @ [fst f]"
  "failed (trace (snd (apply_migration w f))) =
     failed (trace w) @ (if fst (apply_migration w f) then [] else [fst f])"
  by (rule apply_migration_cases [where f = f and w = w];
      simp add: apply_migration_unreadable apply_migration_script_error
        apply_migration_no_table apply_migration_ok)+

lemma apply_migration_executed:
  "\<exists>ex. executed (trace (snd (apply_migration w f))) = executed (trace w) @ ex \<and> length ex \<le> 1"
  by (rule apply_migration_cases [where f = f and w = w];
      simp add: apply_migration_unreadable apply_migration_script_error
        apply_migration_no_table apply_migration_ok)

lemma apply_migration_same:
  assumes "committed w = committed v" and "working w = working v"
    and "without_skips (trace w) = without_skips (trace v)"
  shows "fst (apply_migration v f) = fst (apply_migration w f) \<and>
         committed (snd (apply_migration v f)) = committed (snd (apply_migration w f)) \<and>
         working (snd (apply_migration v f)) = working (snd (apply_migration w f)) \<and>
         without_skips (trace (snd (apply_migration v f))) =
           without_skips (trace (snd (apply_migration w f)))"
proof (rule apply_migration_cases [where f = f and w = w])
  assume u: "snd f = None"
  from apply_migration_unreadable [OF u, of w] apply_migration_unreadable [OF u, of v] assms
  show ?thesis by simp
next
  fix b e assume h: "snd f = Some b" "fst (cursor_execute b w) = Some e"
  have h': "fst (cursor_execute b v) = Some e"
    using h(2) cursor_execute_same(1) [OF assms(1,2), of b] by simp
  from apply_migration_script_error [OF h] apply_migration_script_error [OF h(1) h']
    cursor_execute_same [OF assms(1,2), of b] assms
  show ?thesis by simp
next
  fix b assume h: "snd f = Some b" "fst (cursor_execute b w) = None"
    "schema_migrations (working (snd (cursor_execute b w))) = None"
  have h': "fst (cursor_execute b v) = None"
    "schema_migrations (working (snd (cursor_execute b v))) = None"
    using h(2,3) cursor_execute_same(1,3) [OF assms(1,2), of b] by simp_all
  from apply_migration_no_table [OF h] apply_migration_no_table [OF h(1) h']
    cursor_execute_same [OF assms(1,2), of b] assms
  show ?thesis by simp
next
  fix b rs assume h: "snd f = Some b" "fst (cursor_execute b w) = None"
    "schema_migrations (working (snd (cursor_execute b w))) = Some rs"
  have h': "fst (cursor_execute b v) = None"
    "schema_migrations (working (snd (cursor_execute b v))) = Some rs"
    using h(2,3) cursor_execute_same(1,3) [OF assms(1,2), of b] by simp_all
  from apply_migration_ok [OF h] apply_migration_ok [OF h(1) h']
    cursor_execute_same [OF assms(1,2), of b] assms
  show ?thesis by simp
qed

subsection \<open>The loop\<close>

lemma apply_pending_append:
  "apply_pending d a (xs @ ys) (ac, fc, w) =
     (case apply_pending d a xs (ac, fc, w) of
        (ac1, fc1, w1) \<Rightarrow>
          if fc1 = fc then apply_pending d a ys (ac1, fc1, w1) else (ac1, fc1, w1))"
  by (induction xs arbitrary: ac fc w) (auto split: prod.splits bool.splits)

lemma apply_pending_skip:
  "extract_migration_id (fst f) \<in> a \<Longrightarrow>
   apply_pending d a (f # fs) (ac, fc, w) =
     apply_pending d a fs (ac, fc, emit (Print_Skipping (fst f)) w)"
  by simp

lemma apply_pending_would:
  "extract_migration_id (fst f) \<notin> a \<Longrightarrow>
   apply_pending True a (f # fs) (ac, fc, w) =
     apply_pending True a fs (ac + 1, fc, emit (Print_WouldApply (fst f)) w)"
  by simp

lemma apply_pending_applied:
  "extract_migration_id (fst f) \<notin> a \<Longrightarrow> fst (apply_migration w f) \<Longrightarrow>
   apply_pending False a (f # fs) (ac, fc, w) =
     apply_pending False a fs (ac + 1, fc, snd (apply_migration w f))"
  by (cases "apply_migration w f") simp

lemma apply_pending_stop:
  "extract_migration_id (fst f) \<notin> a \<Longrightarrow> \<not> fst (apply_migration w f) \<Longrightarrow>
   apply_pending False a (f # fs) (ac, fc, w) =
     (ac, fc + 1, emit Print_Stopping (snd (apply_migration w f)))"
  by (cases "apply_migration w f") simp

lemma pending_Cons:
  "pending a (f # fs) =
     (if extract_migration_id (fst f) \<in> a then pending a fs else f # pending a fs)"
  by (simp add: pending_def)

lemma pending_Nil [simp]: "pending a [] = []"
  by (simp add: pending_def)

lemma apply_pending_attempts:
  assumes "apply_pending False a fs (ac, fc, w) = (ac', fc', w')"
  shows "\<exists>A. attempted (trace w') = attempted (trace w) @ A \<and>
           prefix A (map fst (pending a fs)) \<and>
           (fc' = fc \<and> failed (trace w') = failed (trace w) \<and> A = map fst (pending a fs) \<or>
            fc' = fc + 1 \<and> A \<noteq> [] \<and> failed (trace w') = failed (trace w) @ [last A])"
  using assms
proof (induction fs arbitrary: ac fc w)
  case Nil
  then show ?case by simp
next
  case (Cons f fs)
  show ?case
  proof (cases "extract_migration_id (fst f) \<in> a")
    case True
    have "apply_pending False a fs (ac, fc, emit (Print_Skipping (fst f)) w) = (ac', fc', w')"
      using Cons.prems apply_pending_skip [OF True] by metis
    from Cons.IH [OF this] obtain A where
      "attempted (trace w') = attempted (trace (emit (Print_Skipping (fst f)) w)) @ A"
      "prefix A (map fst (pending a fs))"
      "fc' = fc \<and> failed (trace w') = failed (trace (emit (Print_Skipping (fst f)) w)) \<and>
           A = map fst (pending a fs) \<or>
       fc' = fc + 1 \<and> A \<noteq> [] \<and>
           failed (trace w') = failed (trace (emit (Print_Skipping (fst f)) w)) @ [last A]"
      by (elim exE conjE)
    then have "attempted (trace w') = attempted (trace w) @ A \<and>
        prefix A (map fst (pending a (f # fs))) \<and>
        (fc' = fc \<and> failed (trace w') = failed (trace w) \<and> A = map fst (pending a (f # fs)) \<or>
         fc' = fc + 1 \<and> A \<noteq> [] \<and> failed (trace w') = failed (trace w) @ [last A])"
      using True by (simp add: pending_Cons)
    then show ?thesis by (rule exI)
  next
    case False
    show ?thesis
    proof (cases "fst (apply_migration w f)")
      case True
      have fl: "failed (trace (snd (apply_migration w f))) = failed (trace w)"
        using True by (simp add: apply_migration_observed)
      have at: "attempted (trace (snd (apply_migration w f))) = attempted (trace w) @ [fst f]"
        by (simp add: apply_migration_observed)
      have "apply_pending False a fs (ac + 1, fc, snd (apply_migration w f)) = (ac', fc', w')"
        using Cons.prems apply_pending_applied [OF False True] by metis
      from Cons.IH [OF this] obtain A where
        "attempted (trace w') = attempted (trace (snd (apply_migration w f))) @ A"
        "prefix A (map fst (pending a fs))"
        "fc' = fc \<and> failed (trace w') = failed (trace (snd (apply_migration w f))) \<and>
             A = map fst (pending a fs) \<or>
         fc' = fc + 1 \<and> A \<noteq> [] \<and>
             failed (trace w') = failed (trace (snd (apply_migration w f))) @ [last A]"
        by (elim exE conjE)
      then have "attempted (trace w') = attempted (trace w) @ (fst f # A) \<and>
        prefix (fst f # A) (map fst (pending a (f # fs))) \<and>
        (fc' = fc \<and> failed (trace w') = failed (trace w) \<and>
           fst f # A = map fst (pending a (f # fs)) \<or>
         fc' = fc + 1 \<and> fst f # A \<noteq> [] \<and>
           failed (trace w') = failed (trace w) @ [last (fst f # A)])"
        using False by (simp only: fl at pending_Cons) auto
      then show ?thesis by (rule exI)
    next
      case fails: False
      have fl: "failed (trace (snd (apply_migration w f))) = failed (trace w) @ [fst f]"
        using fails by (simp add: apply_migration_observed)
      have at: "attempted (trace (snd (apply_migration w f))) = attempted (trace w) @ [fst f]"
        by (simp add: apply_migration_observed)
      have "(ac', fc', w') = (ac, fc + 1, emit Print_Stopping (snd (apply_migration w f)))"
        using Cons.prems apply_pending_stop [OF False fails] by metis
      then have "fc' = fc + 1" "w' = emit Print_Stopping (snd (apply_migration w f))"
        by simp_all
      then have "attempted (trace w') = attempted (trace w) @ [fst f] \<and>
        prefix [fst f] (map fst (pending a (f # fs))) \<and>
        (fc' = fc \<and> failed (trace w') = failed (trace w) \<and>
           [fst f] = map fst (pending a (f # fs)) \<or>
         fc' = fc + 1 \<and> [fst f] \<noteq> [] \<and>
           failed (trace w') = failed (trace w) @ [last [fst f]])"
        using False by (simp add: fl at pending_Cons)
      then show ?thesis by (rule exI)
    qed
  qed
qed

lemma apply_pending_executed:
  assumes "apply_pending d a fs (ac, fc, w) = (ac', fc', w')"
    and "length (executed (trace w)) \<le> length (attempted (trace w))"
  shows "length (executed (trace w')) \<le> length (attempted (trace w'))"
  using assms
proof (induction fs arbitrary: ac fc w)
  case Nil
  then show ?case by simp
next
  case (Cons f fs)
  have step: "length (executed (trace (snd (apply_migration w f))))
      \<le> length (attempted (trace (snd (apply_migration w f))))"
    using apply_migration_executed [of w f] Cons.prems(2)
    by (auto simp add: apply_migration_observed)
  show ?case
  proof (cases "extract_migration_id (fst f) \<in> a")
    case True
    then show ?thesis
      using Cons.prems Cons.IH [of ac fc "emit (Print_Skipping (fst f)) w"] by simp
  next
    case False
    show ?thesis
    proof (cases d)
      case True
      then show ?thesis
        using False Cons.prems Cons.IH [of "ac + 1" fc "emit (Print_WouldApply (fst f)) w"]
        by simp
    next
      case nd: False
      show ?thesis
      proof (cases "fst (apply_migration w f)")
        case True
        then have "apply_pending d a fs (ac + 1, fc, snd (apply_migration w f)) = (ac', fc', w')"
          using False nd Cons.prems(1) by (simp split: prod.splits)
        from Cons.IH [OF this step] show ?thesis .
      next
        case False
        then have "w' = emit Print_Stopping (snd (apply_migration w f))"
          using \<open>extract_migration_id (fst f) \<notin> a\<close> nd Cons.prems(1)
          by (auto split: prod.splits)
        then show ?thesis using step by simp
      qed
    qed
  qed
qed

lemma apply_pending_failure_point:
  assumes "apply_pending False a fs (ac, fc, w) = (ac', fc', w')"
    and "fc' \<noteq> fc"
  shows "\<exists>w1 f. f \<in> set fs \<and> \<not> fst (apply_migration w1 f) \<and>
           w' = emit Print_Stopping (snd (apply_migration w1 f))"
  using assms
proof (induction fs arbitrary: ac w)
  case Nil
  then show ?case by simp
next
  case (Cons f fs)
  have later: "\<exists>w1 g. g \<in> set (f # fs) \<and> \<not> fst (apply_migration w1 g) \<and>
                 w' = emit Print_Stopping (snd (apply_migration w1 g))"
    if "apply_pending False a fs (ac1, fc, w2) = (ac', fc', w')" for ac1 w2
  proof -
    from Cons.IH [OF that Cons.prems(2)] obtain w1 g where
      "g \<in> set fs" "\<not> fst (apply_migration w1 g)"
      "w' = emit Print_Stopping (snd (apply_migration w1 g))"
      by (elim exE conjE)
    then have "g \<in> set (f # fs) \<and> \<not> fst (apply_migration w1 g) \<and>
        w' = emit Print_Stopping (snd (apply_migration w1 g))"
      by simp
    then show ?thesis by (intro exI)
  qed
  show ?case
  proof (cases "extract_migration_id (fst f) \<in> a")
    case True
    have "apply_pending False a fs (ac, fc, emit (Print_Skipping (fst f)) w) = (ac', fc', w')"
      using Cons.prems(1) apply_pending_skip [OF True] by metis
    then show ?thesis by (rule later)
  next
    case False
    show ?thesis
    proof (cases "fst (apply_migration w f)")
      case True
      have "apply_pending False a fs (ac + 1, fc, snd (apply_migration w f)) = (ac', fc', w')"
        using Cons.prems(1) apply_pending_applied [OF False True] by metis
      then show ?thesis by (rule later)
    next
      case fails: False
      have "(ac', fc', w') = (ac, fc + 1, emit Print_Stopping (snd (apply_migration w f)))"
        using Cons.prems(1) apply_pending_stop [OF False fails] by metis
      then have "f \<in> set (f # fs) \<and> \<not> fst (apply_migration w f) \<and>
          w' = emit Print_Stopping (snd (apply_migration w f))"
        using fails by simp
      then show ?thesis by (intro exI)
    qed
  qed
qed

lemma catalog_step:
  assumes "\<exists>k\<le>length fs. (fin \<longrightarrow> k = length fs) \<and>
             C' = C1 @ map fst (take k fs) \<and>
             S' = S1 @ map fst (filter (\<lambda>f. extract_migration_id (fst f) \<in> a) (take k fs)) \<and>
             A' = A1 @ (if d then [] else map fst (pending a (take k fs)))"
    and "C1 = C0 @ [fst f]"
    and "S1 = S0 @ (if extract_migration_id (fst f) \<in> a then [fst f] else [])"
    and "A1 = A0 @ (if extract_migration_id (fst f) \<in> a \<or> d then [] else [fst f])"
  shows "\<exists>k\<le>length (f # fs). (fin \<longrightarrow> k = length (f # fs)) \<and>
             C' = C0 @ map fst (take k (f # fs)) \<and>
             S' = S0 @ map fst (filter (\<lambda>f. extract_migration_id (fst f) \<in> a)
                                  (take k (f # fs))) \<and>
             A' = A0 @ (if d then [] else map fst (pending a (take k (f # fs))))"
proof -
  from assms(1) obtain k where k: "k \<le> length fs" "fin \<longrightarrow> k = length fs"
    "C' = C1 @ map fst (take k fs)"
    "S' = S1 @ map fst (filter (\<lambda>f. extract_migration_id (fst f) \<in> a) (take k fs))"
    "A' = A1 @ (if d then [] else map fst (pending a (take k fs)))"
    by (elim exE conjE)
  have "Suc k \<le> length (f # fs) \<and> (fin \<longrightarrow> Suc k = length (f # fs)) \<and>
        C' = C0 @ map fst (take (Suc k) (f # fs)) \<and>
        S' = S0 @ map fst (filter (\<lambda>f. extract_migration_id (fst f) \<in> a)
                             (take (Suc k) (f # fs))) \<and>
        A' = A0 @ (if d then [] else map fst (pending a (take (Suc k) (f # fs))))"
    using k assms(2-4) by (simp add: pending_Cons)
  then show ?thesis by (rule exI [of _ "Suc k"])
qed

lemma apply_pending_catalog:
  assumes "apply_pending d a fs (ac, fc, w) = (ac', fc', w')"
  shows "\<exists>k\<le>length fs. (fc' = fc \<longrightarrow> k = length fs) \<and>
           considered (trace w') = considered (trace w) @ map fst (take k fs) \<and>
           skipped (trace w') =
             skipped (trace w) @
             map fst (filter (\<lambda>f. extract_migration_id (fst f) \<in> a) (take k fs)) \<and>
           attempted (trace w') =
             attempted (trace w) @ (if d then [] else map fst (pending a (take k fs)))"
  using assms
proof (induction fs arbitrary: ac fc w)
  case Nil
  then show ?case by simp
next
  case (Cons f fs)
  show ?case
  proof (cases "extract_migration_id (fst f) \<in> a")
    case True
    have "apply_pending d a fs (ac, fc, emit (Print_Skipping (fst f)) w) = (ac', fc', w')"
      using Cons.prems apply_pending_skip [OF True] by metis
    from Cons.IH [OF this] show ?thesis
      by (rule catalog_step) (simp_all add: True)
  next
    case False
    show ?thesis
    proof (cases d)
      case True
      have "apply_pending d a fs (ac + 1, fc, emit (Print_WouldApply (fst f)) w) = (ac', fc', w')"
        using Cons.prems apply_pending_would [OF False] True by metis
      from Cons.IH [OF this] show ?thesis
        by (rule catalog_step) (simp_all add: False True)
    next
      case nd: False
      show ?thesis
      proof (cases "fst (apply_migration w f)")
        case True
        have "apply_pending d a fs (ac + 1, fc, snd (apply_migration w f)) = (ac', fc', w')"
          using Cons.prems apply_pending_applied [OF False True] nd by metis
        from Cons.IH [OF this] show ?thesis
          by (rule catalog_step) (simp_all add: False nd apply_migration_observed)
      next
        case fails: False
        have "(ac', fc', w') = (ac, fc + 1, emit Print_Stopping (snd (apply_migration w f)))"
          using Cons.prems apply_pending_stop [OF False fails] nd by metis
        then have r: "fc' = fc + 1" "w' = emit Print_Stopping (snd (apply_migration w f))"
          by simp_all
        have "Suc 0 \<le> length (f # fs) \<and> (fc' = fc \<longrightarrow> Suc 0 = length (f # fs)) \<and>
           considered (trace w') = considered (trace w) @ map fst (take (Suc 0) (f # fs)) \<and>
           skipped (trace w') =
             skipped (trace w) @
             map fst (filter (\<lambda>f. extract_migration_id (fst f) \<in> a) (take (Suc 0) (f # fs))) \<and>
           attempted (trace w') =
             attempted (trace w) @
             (if d then [] else map fst (pending a (take (Suc 0) (f # fs))))"
          using r False nd by (simp add: apply_migration_observed pending_Cons)
        then show ?thesis by (rule exI [of _ "Suc 0"])
      qed
    qed
  qed
qed

lemma apply_pending_same:
  assumes "apply_pending d a fs (ac, fc, w) = (ac', fc', w')"
    and "apply_pending d a (pending a fs) (ac, fc, v) = (ac'', fc'', v'')"
    and "committed w = committed v" and "working w = working v"
    and "without_skips (trace w) = without_skips (trace v)"
  shows "ac'' = ac' \<and> fc'' = fc' \<and> committed v'' = committed w' \<and> working v'' = working w' \<and>
         without_skips (trace v'') = without_skips (trace w') \<and>
         skipped (trace v'') = skipped (trace v)"
  using assms
proof (induction fs arbitrary: ac fc w v)
  case Nil
  then show ?case by simp
next
  case (Cons f fs)
  show ?case
  proof (cases "extract_migration_id (fst f) \<in> a")
    case True
    have 1: "apply_pending d a fs (ac, fc, emit (Print_Skipping (fst f)) w) = (ac', fc', w')"
      using Cons.prems(1) apply_pending_skip [OF True] by metis
    have 2: "apply_pending d a (pending a fs) (ac, fc, v) = (ac'', fc'', v'')"
      using Cons.prems(2) True by (simp add: pending_Cons)
    show ?thesis
      by (rule Cons.IH [OF 1 2]) (simp_all add: Cons.prems(3-5))
  next
    case False
    have p: "pending a (f # fs) = f # pending a fs"
      using False by (simp add: pending_Cons)
    show ?thesis
    proof (cases d)
      case True
      have 1: "apply_pending d a fs (ac + 1, fc, emit (Print_WouldApply (fst f)) w) =
                 (ac', fc', w')"
        using Cons.prems(1) apply_pending_would [OF False] True by metis
      have 2: "apply_pending d a (pending a fs) (ac + 1, fc, emit (Print_WouldApply (fst f)) v) =
                 (ac'', fc'', v'')"
        using Cons.prems(2) apply_pending_would [OF False] True p by metis
      have "ac'' = ac' \<and> fc'' = fc' \<and> committed v'' = committed w' \<and>
            working v'' = working w' \<and>
            without_skips (trace v'') = without_skips (trace w') \<and>
            skipped (trace v'') = skipped (trace (emit (Print_WouldApply (fst f)) v))"
        by (rule Cons.IH [OF 1 2]) (simp_all add: Cons.prems(3-5))
      then show ?thesis by simp
    next
      case nd: False
      note same = apply_migration_same [OF Cons.prems(3-5), of f]
      show ?thesis
      proof (cases "fst (apply_migration w f)")
        case True
        then have tv: "fst (apply_migration v f)" using same by simp
        have 1: "apply_pending d a fs (ac + 1, fc, snd (apply_migration w f)) = (ac', fc', w')"
          using Cons.prems(1) apply_pending_applied [OF False True] nd by metis
        have 2: "apply_pending d a (pending a fs) (ac + 1, fc, snd (apply_migration v f)) =
                   (ac'', fc'', v'')"
          using Cons.prems(2) apply_pending_applied [OF False tv] nd p by metis
        have "ac'' = ac' \<and> fc'' = fc' \<and> committed v'' = committed w' \<and>
              working v'' = working w' \<and>
              without_skips (trace v'') = without_skips (trace w') \<and>
              skipped (trace v'') = skipped (trace (snd (apply_migration v f)))"
          by (rule Cons.IH [OF 1 2]) (simp_all add: same)
        then show ?thesis by (simp add: apply_migration_observed)
      next
        case fails: False
        then have fv: "\<not> fst (apply_migration v f)" using same by simp
        have 1: "(ac', fc', w') = (ac, fc + 1, emit Print_Stopping (snd (apply_migration w f)))"
          using Cons.prems(1) apply_pending_stop [OF False fails] nd by metis
        have 2: "(ac'', fc'', v'') =
                   (ac, fc + 1, emit Print_Stopping (snd (apply_migration v f)))"
          using Cons.prems(2) apply_pending_stop [OF False fv] nd p by metis
        from 1 2 same show ?thesis by (simp add: apply_migration_observed)
      qed
    qed
  qed
qed

subsection \<open>The run as a whole\<close>

lemma run_migrations_loop:
  assumes "get_migration_files dir = Inr files" and "files \<noteq> []"
  shows "run_migrations d True dir db =
     (case apply_pending d (set (rows db)) files (0, 0, loop_entry d db (length files)) of
        (ac, fc, w3) \<Rightarrow> (Return (if fc = 0 then 0 else 1), summary d ac fc w3))"
  using assms
  by (cases "schema_migrations db")
     (simp_all add: run_migrations_def get_db_connection_def init_world_def emit_def
        get_applied_migrations_def create_migrations_table_def commit_def loop_entry_def
        rows_def Let_def)

lemma run_migrations_no_files:
  assumes "get_migration_files dir = Inr []"
  shows "run_migrations d True dir db =
     (Return 0, \<lparr>committed = db, working = db,
                 trace = (if d then [Print_DryRunMode] else []) @
                         [Print_Connected, Print_NoFiles]\<rparr>)"
  using assms
  by (simp add: run_migrations_def get_db_connection_def init_world_def emit_def)

lemma summary_fields [simp]:
  "committed (summary d ac fc w) = committed w"
  "working (summary d ac fc w) = working w"
  "considered (trace (summary d ac fc w)) = considered (trace w)"
  "skipped (trace (summary d ac fc w)) = skipped (trace w)"
  "attempted (trace (summary d ac fc w)) = attempted (trace w)"
  "executed (trace (summary d ac fc w)) = executed (trace w)"
  "failed (trace (summary d ac fc w)) = failed (trace w)"
  "inserted (trace (summary d ac fc w)) = inserted (trace w)"
  by (simp_all add: summary_def)

lemma loop_entry_fields [simp]:
  "committed (loop_entry d db n) = db\<lparr>schema_migrations := Some (rows db)\<rparr>"
  "working (loop_entry d db n) = db\<lparr>schema_migrations := Some (rows db)\<rparr>"
  "considered (trace (loop_entry d db n)) = []"
  "skipped (trace (loop_entry d db n)) = []"
  "attempted (trace (loop_entry d db n)) = []"
  "executed (trace (loop_entry d db n)) = []"
  "failed (trace (loop_entry d db n)) = []"
  "inserted (trace (loop_entry d db n)) = []"
  by (simp_all add: loop_entry_def)

lemma apply_pending_failed_count:
  "apply_pending d a fs (ac, fc, w) = (ac', fc', w') \<Longrightarrow> fc' = fc \<or> fc' = fc + 1"
  by (induction fs arbitrary: ac fc w) (auto split: if_splits prod.splits bool.splits)

lemma run_migrations_catalog:
  assumes "get_migration_files dir = Inr files"
  shows "\<exists>k\<le>length files.
           (fst (run_migrations d True dir db) = Return 0 \<longrightarrow> k = length files) \<and>
           considered (trace (snd (run_migrations d True dir db))) = map fst (take k files) \<and>
           skipped (trace (snd (run_migrations d True dir db))) =
             map fst (filter (\<lambda>f. extract_migration_id (fst f) \<in> set (rows db))
                        (take k files)) \<and>
           attempted (trace (snd (run_migrations d True dir db))) =
             (if d then [] else map fst (pending (set (rows db)) (take k files)))"
proof (cases "files = []")
  case True
  with assms show ?thesis by (simp add: run_migrations_no_files)
next
  case False
  obtain ac fc w3 where
    l: "apply_pending d (set (rows db)) files (0, 0, loop_entry d db (length files)) =
          (ac, fc, w3)"
    by (cases "apply_pending d (set (rows db)) files (0, 0, loop_entry d db (length files))")
  have r: "run_migrations d True dir db = (Return (if fc = 0 then 0 else 1), summary d ac fc w3)"
    using run_migrations_loop [OF assms False, of d db] l by simp
  from apply_pending_catalog [OF l] obtain k where k: "k \<le> length files"
    "fc = 0 \<longrightarrow> k = length files"
    "considered (trace w3) =
       considered (trace (loop_entry d db (length files))) @ map fst (take k files)"
    "skipped (trace w3) =
       skipped (trace (loop_entry d db (length files))) @
       map fst (filter (\<lambda>f. extract_migration_id (fst f) \<in> set (rows db)) (take k files))"
    "attempted (trace w3) =
       attempted (trace (loop_entry d db (length files))) @
       (if d then [] else map fst (pending (set (rows db)) (take k files)))"
    by (elim exE conjE)
  have "k \<le> length files \<and>
        (fst (run_migrations d True dir db) = Return 0 \<longrightarrow> k = length files) \<and>
        considered (trace (snd (run_migrations d True dir db))) = map fst (take k files) \<and>
        skipped (trace (snd (run_migrations d True dir db))) =
          map fst (filter (\<lambda>f. extract_migration_id (fst f) \<in> set (rows db))
                     (take k files)) \<and>
        attempted (trace (snd (run_migrations d True dir db))) =
          (if d then [] else map fst (pending (set (rows db)) (take k files)))"
    using k by (simp add: r)
  then show ?thesis by (rule exI [of _ k])
qed

section \<open>The claims\<close>

subsection \<open>C2: the first failure ends the run\<close>

text \<open>
  Claim C2. In a run that is not a dry run, with the database reachable and the
  migrations directory present: at most one migration fails; the exit code is 1 when one
  failed and 0 when none did; the files opened are, in catalog order, the first pending
  ones, and when a migration failed it is the last file opened, so that no migration
  after it in the catalog is read. When one failed, the committed database after the
  run is the one the failing \<open>apply_migration\<close> left, and after that call the run
  only prints that it stops, prints its summary and closes the connection: nothing later
  in the catalog is executed. No more scripts are executed than files are opened.
\<close>

theorem failure_halts_run:
  assumes "reachable"
    and "get_migration_files migrations_dir = Inr files"
    and "run_migrations False reachable migrations_dir db = (r, w)"
  shows "length (failed (trace w)) \<le> 1 \<and>
         r = Return (if failed (trace w) = [] then 0 else 1) \<and>
         prefix (attempted (trace w)) (map fst (pending (set (rows db)) files)) \<and>
         (failed (trace w) \<noteq> [] \<longrightarrow>
            attempted (trace w) \<noteq> [] \<and> failed (trace w) = [last (attempted (trace w))] \<and>
            (\<exists>w1 f n. f \<in> set files \<and> \<not> fst (apply_migration w1 f) \<and>
               committed w = committed (snd (apply_migration w1 f)) \<and>
               trace w = trace (snd (apply_migration w1 f)) @
                 [Print_Stopping, Print_SummaryApplied n, Print_SummaryFailed 1, Conn_Close])) \<and>
         length (executed (trace w)) \<le> length (attempted (trace w))"
proof (cases "files = []")
  case True
  with assms show ?thesis by (auto simp add: run_migrations_no_files)
next
  case False
  obtain ac fc w3 where loop:
    "apply_pending False (set (rows db)) files (0, 0, loop_entry False db (length files))
       = (ac, fc, w3)"
    by (cases "apply_pending False (set (rows db)) files
                 (0, 0, loop_entry False db (length files))") auto
  have res: "r = Return (if fc = 0 then 0 else 1)" "w = summary False ac fc w3"
    using assms run_migrations_loop [OF assms(2) False, of False db] loop by simp_all
  from apply_pending_attempts [OF loop] obtain A where
    A: "attempted (trace w3) = A"
      "prefix A (map fst (pending (set (rows db)) files))"
      "fc = 0 \<and> failed (trace w3) = [] \<and> A = map fst (pending (set (rows db)) files) \<or>
       fc = 1 \<and> A \<noteq> [] \<and> failed (trace w3) = [last A]"
    by auto
  have ex: "length (executed (trace w3)) \<le> length (attempted (trace w3))"
    using apply_pending_executed [OF loop] by simp
  have stop: "\<exists>w1 f n. f \<in> set files \<and> \<not> fst (apply_migration w1 f) \<and>
               committed w = committed (snd (apply_migration w1 f)) \<and>
               trace w = trace (snd (apply_migration w1 f)) @
                 [Print_Stopping, Print_SummaryApplied n, Print_SummaryFailed 1, Conn_Close]"
    if "fc = 1"
  proof -
    from apply_pending_failure_point [OF loop] that obtain w1 f where
      "f \<in> set files" "\<not> fst (apply_migration w1 f)"
      "w3 = emit Print_Stopping (snd (apply_migration w1 f))"
      by auto
    then have "f \<in> set files \<and> \<not> fst (apply_migration w1 f) \<and>
               committed w = committed (snd (apply_migration w1 f)) \<and>
               trace w = trace (snd (apply_migration w1 f)) @
                 [Print_Stopping, Print_SummaryApplied ac, Print_SummaryFailed 1, Conn_Close]"
      using res(2) that by (simp add: summary_def)
    then show ?thesis by (intro exI)
  qed
  from A(3) show ?thesis
  proof
    assume "fc = 0 \<and> failed (trace w3) = [] \<and> A = map fst (pending (set (rows db)) files)"
    with A(1,2) res ex show ?thesis by simp
  next
    assume f: "fc = 1 \<and> A \<noteq> [] \<and> failed (trace w3) = [last A]"
    with stop have "\<exists>w1 f n. f \<in> set files \<and> \<not> fst (apply_migration w1 f) \<and>
               committed w = committed (snd (apply_migration w1 f)) \<and>
               trace w = trace (snd (apply_migration w1 f)) @
                 [Print_Stopping, Print_SummaryApplied n, Print_SummaryFailed 1, Conn_Close]"
      by simp
    with f A(1,2) res ex show ?thesis by simp
  qed
qed

text \<open>
  Three migrations, the second of which creates a table that the first has created: the
  third is never opened.
\<close>

theorem failure_halts_run_witness:
  "get_migration_files
     (Some [(''003_c.sql'', Some [Create ''u'']), (''001_a.sql'', Some [Create ''t'']),
            (''002_b.sql'', Some [Create ''t''])]) =
     Inr [(''001_a.sql'', Some [Create ''t'']), (''002_b.sql'', Some [Create ''t'']),
          (''003_c.sql'', Some [Create ''u''])] \<and>
   fst (run_migrations False True
     (Some [(''003_c.sql'', Some [Create ''u'']), (''001_a.sql'', Some [Create ''t'']),
            (''002_b.sql'', Some [Create ''t''])])
     \<lparr>objects = [], schema_migrations = None\<rparr>) = Return 1 \<and>
   attempted (trace (snd (run_migrations False True
     (Some [(''003_c.sql'', Some [Create ''u'']), (''001_a.sql'', Some [Create ''t'']),
            (''002_b.sql'', Some [Create ''t''])])
     \<lparr>objects = [], schema_migrations = None\<rparr>))) = [''001_a.sql'', ''002_b.sql''] \<and>
   failed (trace (snd (run_migrations False True
     (Some [(''003_c.sql'', Some [Create ''u'']), (''001_a.sql'', Some [Create ''t'']),
            (''002_b.sql'', Some [Create ''t''])])
     \<lparr>objects = [], schema_migrations = None\<rparr>))) = [''002_b.sql'']"
proof -
  let ?dir = "Some [(''003_c.sql'', Some [Create ''u'']), (''001_a.sql'', Some [Create ''t'']),
            (''002_b.sql'', Some [Create ''t''])]"
  let ?db = "\<lparr>objects = [], schema_migrations = None\<rparr>"
  have files: "get_migration_files ?dir =
     Inr [(''001_a.sql'', Some [Create ''t'']), (''002_b.sql'', Some [Create ''t'']),
          (''003_c.sql'', Some [Create ''u''])]"
    by code_simp
  have att: "attempted (trace (snd (run_migrations False True ?dir ?db)))
      = [''001_a.sql'', ''002_b.sql'']"
    by code_simp
  have fl: "failed (trace (snd (run_migrations False True ?dir ?db))) = [''002_b.sql'']"
    by code_simp
  have run: "run_migrations False True ?dir ?db =
      (fst (run_migrations False True ?dir ?db), snd (run_migrations False True ?dir ?db))"
    by simp
  from failure_halts_run [OF TrueI files run] att fl files show ?thesis
    by simp
qed

subsection \<open>C9: a directory without migration files\<close>

text \<open>
  Claim C9. When the database is reachable and the migrations directory exists but none
  of its entries has a name ending in \<open>.sql\<close>, the catalog is the empty list, not an
  error, and the run returns 0: it prints that there are no files, considers and fails no
  migration, sends nothing at all to the database, not even the creation of the
  bookkeeping table, and leaves the database as it found it.
\<close>

theorem empty_catalog:
  assumes "reachable"
    and "migrations_dir = Some entries"
    and "\<forall>f \<in> set entries. \<not> suffix ''.sql'' (fst f)"
  shows "get_migration_files migrations_dir = Inr [] \<and>
         fst (run_migrations dry_run reachable migrations_dir db) = Return 0 \<and>
         committed (snd (run_migrations dry_run reachable migrations_dir db)) = db \<and>
         trace (snd (run_migrations dry_run reachable migrations_dir db)) =
           (if dry_run then [Print_DryRunMode] else []) @ [Print_Connected, Print_NoFiles] \<and>
         db_calls (trace (snd (run_migrations dry_run reachable migrations_dir db))) = [] \<and>
         considered (trace (snd (run_migrations dry_run reachable migrations_dir db))) = [] \<and>
         failed (trace (snd (run_migrations dry_run reachable migrations_dir db))) = []"
proof -
  have "filter (\<lambda>f. matches_sql (fst f)) entries = []"
    using assms(3) by (simp add: matches_sql_def filter_empty_conv)
  then have files: "get_migration_files migrations_dir = Inr []"
    using assms(2) by (simp add: get_migration_files_def)
  show ?thesis
    using assms(1) files by (simp add: run_migrations_no_files)
qed

text \<open>A directory holding a readme and a backup copy, over a database without the table.\<close>

theorem empty_catalog_witness:
  "\<not> suffix ''.sql'' ''README.md'' \<and> \<not> suffix ''.sql'' ''001_a.sql.bak'' \<and>
   run_migrations False True
     (Some [(''README.md'', Some [Create ''t'']), (''001_a.sql.bak'', None)])
     \<lparr>objects = [''x''], schema_migrations = None\<rparr> =
   (Return 0,
    \<lparr>committed = \<lparr>objects = [''x''], schema_migrations = None\<rparr>,
     working = \<lparr>objects = [''x''], schema_migrations = None\<rparr>,
     trace = [Print_Connected, Print_NoFiles]\<rparr>)"
proof -
  have h: "\<forall>f \<in> set [(''README.md'', Some [Create ''t'']), (''001_a.sql.bak'', None :: script option)].
       \<not> suffix ''.sql'' (fst f)"
    by (simp add: suffix_def)
  have w: "working (snd (run_migrations False True
     (Some [(''README.md'', Some [Create ''t'']), (''001_a.sql.bak'', None)])
     \<lparr>objects = [''x''], schema_migrations = None\<rparr>)) = \<lparr>objects = [''x''], schema_migrations = None\<rparr>"
    by code_simp
  from empty_catalog [OF TrueI refl h, of False "\<lparr>objects = [''x''], schema_migrations = None\<rparr>"]
    h w show ?thesis
    by (simp add: prod_eq_iff)
qed

subsection \<open>C10: a dry run cannot fail\<close>

lemma apply_pending_dry:
  "apply_pending True a fs (ac, fc, w) = (ac', fc', w') \<Longrightarrow>
     fc' = fc \<and> committed w' = committed w \<and> working w' = working w \<and>
     attempted (trace w') = attempted (trace w) \<and>
     executed (trace w') = executed (trace w) \<and>
     failed (trace w') = failed (trace w) \<and>
     inserted (trace w') = inserted (trace w) \<and>
     db_calls (trace w') = db_calls (trace w)"
  by (induction fs arbitrary: ac fc w) (auto split: if_splits)

text \<open>
  Claim C10. In a dry run with the database reachable and the migrations directory
  present, whatever the directory holds (scripts that would be rejected, empty scripts,
  files that cannot be read), the run returns 0, no migration is reported failed, no file
  is opened and no script is executed.
\<close>

theorem dry_run_never_fails:
  assumes "reachable"
    and "migrations_dir = Some entries"
  shows "fst (run_migrations True reachable migrations_dir db) = Return 0 \<and>
         failed (trace (snd (run_migrations True reachable migrations_dir db))) = [] \<and>
         attempted (trace (snd (run_migrations True reachable migrations_dir db))) = [] \<and>
         executed (trace (snd (run_migrations True reachable migrations_dir db))) = []"
proof -
  obtain files where files: "get_migration_files migrations_dir = Inr files"
    using assms(2) by (simp add: get_migration_files_def)
  show ?thesis
  proof (cases "files = []")
    case True
    with assms(1) files show ?thesis by (simp add: run_migrations_no_files)
  next
    case False
    obtain ac fc w3 where loop:
      "apply_pending True (set (rows db)) files (0, 0, loop_entry True db (length files))
         = (ac, fc, w3)"
      by (cases "apply_pending True (set (rows db)) files
                   (0, 0, loop_entry True db (length files))") auto
    from apply_pending_dry [OF loop] assms(1)
      run_migrations_loop [OF files False, of True db] loop
    show ?thesis by simp
  qed
qed

text \<open>
  A catalog of an unreadable file that is recorded as applied, a script with a syntax
  error and an empty script.
\<close>

theorem dry_run_never_fails_witness:
  "run_migrations True True
     (Some [(''001_a.sql'', None), (''002_b.sql'', Some [Invalid ''syntax error'']),
            (''003_c.sql'', Some [])])
     \<lparr>objects = [], schema_migrations = Some [''001_a'']\<rparr> =
   (Return 0,
    \<lparr>committed = \<lparr>objects = [], schema_migrations = Some [''001_a'']\<rparr>,
     working = \<lparr>objects = [], schema_migrations = Some [''001_a'']\<rparr>,
     trace = [Print_DryRunMode, Print_Connected, Print_Found 3, Sql_CreateTable, Sql_Commit,
              Sql_Select, Print_AlreadyApplied 1, Print_Skipping ''001_a.sql'',
              Print_WouldApply ''002_b.sql'', Print_WouldApply ''003_c.sql'',
              Print_SummaryWould 2, Conn_Close]\<rparr>)"
proof -
  let ?run = "run_migrations True True
     (Some [(''001_a.sql'', None), (''002_b.sql'', Some [Invalid ''syntax error'']),
            (''003_c.sql'', Some [])])
     \<lparr>objects = [], schema_migrations = Some [''001_a'']\<rparr>"
  have w: "snd ?run =
    \<lparr>committed = \<lparr>objects = [], schema_migrations = Some [''001_a'']\<rparr>,
     working = \<lparr>objects = [], schema_migrations = Some [''001_a'']\<rparr>,
     trace = [Print_DryRunMode, Print_Connected, Print_Found 3, Sql_CreateTable, Sql_Commit,
              Sql_Select, Print_AlreadyApplied 1, Print_Skipping ''001_a.sql'',
              Print_WouldApply ''002_b.sql'', Print_WouldApply ''003_c.sql'',
              Print_SummaryWould 2, Conn_Close]\<rparr>"
    by code_simp
  from dry_run_never_fails [OF TrueI refl,
      of "[(''001_a.sql'', None), (''002_b.sql'', Some [Invalid ''syntax error'']),
            (''003_c.sql'', Some [])]" "\<lparr>objects = [], schema_migrations = Some [''001_a'']\<rparr>"] w
  show ?thesis by (simp add: prod_eq_iff)
qed

subsection \<open>C3: what a dry run changes\<close>

text \<open>
  Claim C3 fails on the code. A dry run over a database that has no
  \<open>schema_migrations\<close> table, with one migration in the catalog, prints that no changes
  will be made, then creates the table and commits: the database after the run has the
  table, empty, and so differs from the database before it.
\<close>

theorem dry_run_creates_table:
  "run_migrations True True (Some [(''001_a.sql'', Some [Create ''t''])])
     \<lparr>objects = [], schema_migrations = None\<rparr> =
   (Return 0,
    \<lparr>committed = \<lparr>objects = [], schema_migrations = Some []\<rparr>,
     working = \<lparr>objects = [], schema_migrations = Some []\<rparr>,
     trace = [Print_DryRunMode, Print_Connected, Print_Found 1, Sql_CreateTable, Sql_Commit,
              Sql_Select, Print_AlreadyApplied 0, Print_WouldApply ''001_a.sql'',
              Print_SummaryWould 1, Conn_Close]\<rparr>) \<and>
   committed (snd (run_migrations True True (Some [(''001_a.sql'', Some [Create ''t''])])
     \<lparr>objects = [], schema_migrations = None\<rparr>)) \<noteq> \<lparr>objects = [], schema_migrations = None\<rparr>"
  by code_simp

subsection \<open>C7: the catalog\<close>

lemma apply_pending_considered:
  assumes "apply_pending d a fs (ac, fc, w) = (ac', fc', w')"
  shows "\<exists>C. considered (trace w') = considered (trace w) @ C \<and> prefix C (map fst fs) \<and>
           (fc' = fc \<longrightarrow> C = map fst fs)"
  using assms
proof (induction fs arbitrary: ac fc w)
  case Nil
  then show ?case by simp
next
  case (Cons f fs)
  have step: "\<exists>C. considered (trace w') = considered (trace w) @ C \<and>
                prefix C (map fst (f # fs)) \<and> (fc' = fc \<longrightarrow> C = map fst (f # fs))"
    if run: "apply_pending d a fs (ac1, fc, w1) = (ac', fc', w')"
      and w1: "considered (trace w1) = considered (trace w) @ [fst f]"
    for ac1 w1
  proof -
    from Cons.IH [OF run] obtain C where
      "considered (trace w') = considered (trace w1) @ C" "prefix C (map fst fs)"
      "fc' = fc \<longrightarrow> C = map fst fs"
      by (elim exE conjE)
    then have "considered (trace w') = considered (trace w) @ (fst f # C) \<and>
        prefix (fst f # C) (map fst (f # fs)) \<and> (fc' = fc \<longrightarrow> fst f # C = map fst (f # fs))"
      using w1 by simp
    then show ?thesis by (rule exI)
  qed
  show ?case
  proof (cases "extract_migration_id (fst f) \<in> a")
    case True
    have "apply_pending d a fs (ac, fc, emit (Print_Skipping (fst f)) w) = (ac', fc', w')"
      using Cons.prems apply_pending_skip [OF True] by metis
    then show ?thesis by (rule step) simp
  next
    case False
    show ?thesis
    proof (cases d)
      case True
      have "apply_pending d a fs (ac + 1, fc, emit (Print_WouldApply (fst f)) w) = (ac', fc', w')"
        using Cons.prems apply_pending_would [OF False] True by metis
      then show ?thesis by (rule step) simp
    next
      case nd: False
      show ?thesis
      proof (cases "fst (apply_migration w f)")
        case True
        have "apply_pending d a fs (ac + 1, fc, snd (apply_migration w f)) = (ac', fc', w')"
          using Cons.prems apply_pending_applied [OF False True] nd by metis
        then show ?thesis by (rule step) (simp add: apply_migration_observed)
      next
        case fails: False
        have "(ac', fc', w') = (ac, fc + 1, emit Print_Stopping (snd (apply_migration w f)))"
          using Cons.prems apply_pending_stop [OF False fails] nd by metis
        then have "fc' = fc + 1" "w' = emit Print_Stopping (snd (apply_migration w f))"
          by simp_all
        then have "considered (trace w') = considered (trace w) @ [fst f] \<and>
            prefix [fst f] (map fst (f # fs)) \<and> (fc' = fc \<longrightarrow> [fst f] = map fst (f # fs))"
          by (simp add: apply_migration_observed)
        then show ?thesis by (rule exI)
      qed
    qed
  qed
qed

text \<open>
  Claim C7. For an existing directory the catalog holds exactly the entries of the
  directory whose name ends in \<open>.sql\<close>, each as often as the directory has it, in
  ascending lexicographic order of their names; the files a run comes to are the first
  files of that list in that order, and all of them when the run returns 0 with the
  database reachable.
\<close>

theorem catalog_listing:
  assumes "migrations_dir = Some entries"
  shows "\<exists>files. get_migration_files migrations_dir = Inr files \<and>
           mset files = mset (filter (\<lambda>f. \<exists>base. fst f = base @ ''.sql'') entries) \<and>
           sorted (map fst files) \<and>
           prefix (considered (trace (snd (run_migrations dry_run reachable migrations_dir db))))
             (map fst files) \<and>
           (reachable \<and> fst (run_migrations dry_run reachable migrations_dir db) = Return 0 \<longrightarrow>
              considered (trace (snd (run_migrations dry_run reachable migrations_dir db))) =
                map fst files)"
proof -
  let ?files = "sort_key fst (filter (\<lambda>f. matches_sql (fst f)) entries)"
  have files: "get_migration_files migrations_dir = Inr ?files"
    using assms by (simp add: get_migration_files_def)
  have sel: "mset ?files = mset (filter (\<lambda>f. \<exists>base. fst f = base @ ''.sql'') entries)"
    by (simp add: matches_sql_def suffix_def)
  have ord: "sorted (map fst ?files)"
    by (rule sorted_sort_key)
  have run: "prefix (considered (trace (snd (run_migrations dry_run reachable migrations_dir db))))
             (map fst ?files) \<and>
           (reachable \<and> fst (run_migrations dry_run reachable migrations_dir db) = Return 0 \<longrightarrow>
              considered (trace (snd (run_migrations dry_run reachable migrations_dir db))) =
                map fst ?files)"
  proof (cases reachable)
    case False
    then show ?thesis
      by (simp add: run_migrations_def get_db_connection_def init_world_def)
  next
    case True
    show ?thesis
    proof (cases "?files = []")
      case e: True
      with files True show ?thesis by (simp add: run_migrations_no_files)
    next
      case ne: False
      obtain ac fc w3 where loop:
        "apply_pending dry_run (set (rows db)) ?files
           (0, 0, loop_entry dry_run db (length ?files)) = (ac, fc, w3)"
        by (cases "apply_pending dry_run (set (rows db)) ?files
                     (0, 0, loop_entry dry_run db (length ?files))") auto
      from apply_pending_considered [OF loop] obtain C where
        "considered (trace w3) = C" "prefix C (map fst ?files)" "fc = 0 \<longrightarrow> C = map fst ?files"
        by auto
      with True run_migrations_loop [OF files ne, of dry_run db] loop
      show ?thesis by (auto split: if_splits)
    qed
  qed
  from files sel ord run show ?thesis by blast
qed

text \<open>
  The order is that of the characters, not of the numbers: \<open>10_a.sql\<close> comes before
  \<open>2_b.sql\<close>. The match is case sensitive, as on a POSIX file system.
\<close>

theorem catalog_listing_witness:
  "get_migration_files
     (Some [(''2_b.sql'', Some [Create ''b'']), (''notes.txt'', None),
            (''10_a.sql'', Some [Create ''a'']), (''3_c.SQL'', None)]) =
   Inr [(''10_a.sql'', Some [Create ''a'']), (''2_b.sql'', Some [Create ''b''])] \<and>
   considered (trace (snd (run_migrations False True
     (Some [(''2_b.sql'', Some [Create ''b'']), (''notes.txt'', None),
            (''10_a.sql'', Some [Create ''a'']), (''3_c.SQL'', None)])
     \<lparr>objects = [], schema_migrations = None\<rparr>))) = [''10_a.sql'', ''2_b.sql'']"
proof -
  let ?entries = "[(''2_b.sql'', Some [Create ''b'']), (''notes.txt'', None),
            (''10_a.sql'', Some [Create ''a'']), (''3_c.SQL'', None)]"
  let ?db = "\<lparr>objects = [], schema_migrations = None\<rparr>"
  have files: "get_migration_files (Some ?entries) =
      Inr [(''10_a.sql'', Some [Create ''a'']), (''2_b.sql'', Some [Create ''b''])]"
    by code_simp
  have ok: "fst (run_migrations False True (Some ?entries) ?db) = Return 0"
    by code_simp
  from catalog_listing [OF refl, of ?entries False True ?db] files ok
  show ?thesis by auto
qed

subsection \<open>C5: identity and skipping\<close>

text \<open>
  Claim C5 fails on the code for one file name. The catalog lists every entry whose name
  ends in \<open>.sql\<close>, the entry named \<open>.sql\<close> itself among them, and \<open>Path.stem\<close> takes
  a name that begins with its only dot as having no extension: the identity of that file
  is \<open>.sql\<close>, the whole name, and this is the row a run records for it.
\<close>

theorem dot_sql_identity_counterexample:
  "get_migration_files (Some [(''.sql'', Some [Create ''t''])]) =
     Inr [(''.sql'', Some [Create ''t''])] \<and>
   extract_migration_id ''.sql'' = ''.sql'' \<and>
   fst (run_migrations False True (Some [(''.sql'', Some [Create ''t''])])
     \<lparr>objects = [], schema_migrations = None\<rparr>) = Return 0 \<and>
   committed (snd (run_migrations False True (Some [(''.sql'', Some [Create ''t''])])
     \<lparr>objects = [], schema_migrations = None\<rparr>)) =
     \<lparr>objects = [''t''], schema_migrations = Some [''.sql'']\<rparr>"
  by code_simp

text \<open>
  Claim C5 as amended. The identity of the file \<open>base.sql\<close> is \<open>base\<close>, except that
  the file named \<open>.sql\<close> has identity \<open>.sql\<close>. In a run that has its connection, the
  loop comes to the files of the catalog in order, to all of them when the run returns
  0 and to those up to the failing one otherwise, and of the files it comes to it skips
  exactly those whose identity is an element of the set of rows read from
  \<open>schema_migrations\<close> at the start; outside a dry run it opens exactly the others.
  Elements of that set are strings, compared as they are, character by character. A
  skipped file has no effect but the line that reports it: with any set of applied
  identities and from any state, the loop over the whole catalog and the loop over the
  catalog without the recorded files end with the same two counters, the same committed
  database, the same open transaction and, the lines about skipped files apart, the same
  trace, so the same files opened, scripts executed and rows inserted.
\<close>

theorem identity_and_skip_catalog:
  "extract_migration_id (base @ ''.sql'') = (if base = [] then ''.sql'' else base) \<and>
   (get_migration_files migrations_dir = Inr files \<longrightarrow>
      (\<exists>k\<le>length files.
         (fst (run_migrations dry_run True migrations_dir db) = Return 0 \<longrightarrow>
            k = length files) \<and>
         considered (trace (snd (run_migrations dry_run True migrations_dir db))) =
           map fst (take k files) \<and>
         skipped (trace (snd (run_migrations dry_run True migrations_dir db))) =
           map fst (filter (\<lambda>f. extract_migration_id (fst f) \<in> set (rows db))
                      (take k files)) \<and>
         attempted (trace (snd (run_migrations dry_run True migrations_dir db))) =
           (if dry_run then []
            else map fst (filter (\<lambda>f. extract_migration_id (fst f) \<notin> set (rows db))
                            (take k files))))) \<and>
   fst (apply_pending dry_run applied_migrations (pending applied_migrations fs) (ac, fc, w)) =
     fst (apply_pending dry_run applied_migrations fs (ac, fc, w)) \<and>
   fst (snd (apply_pending dry_run applied_migrations (pending applied_migrations fs)
               (ac, fc, w))) =
     fst (snd (apply_pending dry_run applied_migrations fs (ac, fc, w))) \<and>
   committed (snd (snd (apply_pending dry_run applied_migrations
                          (pending applied_migrations fs) (ac, fc, w)))) =
     committed (snd (snd (apply_pending dry_run applied_migrations fs (ac, fc, w)))) \<and>
   working (snd (snd (apply_pending dry_run applied_migrations
                        (pending applied_migrations fs) (ac, fc, w)))) =
     working (snd (snd (apply_pending dry_run applied_migrations fs (ac, fc, w)))) \<and>
   without_skips (trace (snd (snd (apply_pending dry_run applied_migrations
                                     (pending applied_migrations fs) (ac, fc, w))))) =
     without_skips (trace (snd (snd (apply_pending dry_run applied_migrations fs
                                       (ac, fc, w))))) \<and>
   skipped (trace (snd (snd (apply_pending dry_run applied_migrations
                               (pending applied_migrations fs) (ac, fc, w))))) =
     skipped (trace w)"
proof -
  have id: "extract_migration_id (base @ ''.sql'') = (if base = [] then ''.sql'' else base)"
    by (simp add: extract_migration_id_def stem_sql) (simp add: stem_def)
  obtain ac1 fc1 w1 where
    1: "apply_pending dry_run applied_migrations fs (ac, fc, w) = (ac1, fc1, w1)"
    by (cases "apply_pending dry_run applied_migrations fs (ac, fc, w)")
  obtain ac2 fc2 w2 where
    2: "apply_pending dry_run applied_migrations (pending applied_migrations fs) (ac, fc, w) =
          (ac2, fc2, w2)"
    by (cases "apply_pending dry_run applied_migrations (pending applied_migrations fs)
                 (ac, fc, w)")
  from apply_pending_same [OF 1 2 refl refl refl]
  have loop: "ac2 = ac1 \<and> fc2 = fc1 \<and> committed w2 = committed w1 \<and> working w2 = working w1 \<and>
      without_skips (trace w2) = without_skips (trace w1) \<and> skipped (trace w2) = skipped (trace w)" .
  have run: "\<exists>k\<le>length files.
         (fst (run_migrations dry_run True migrations_dir db) = Return 0 \<longrightarrow>
            k = length files) \<and>
         considered (trace (snd (run_migrations dry_run True migrations_dir db))) =
           map fst (take k files) \<and>
         skipped (trace (snd (run_migrations dry_run True migrations_dir db))) =
           map fst (filter (\<lambda>f. extract_migration_id (fst f) \<in> set (rows db))
                      (take k files)) \<and>
         attempted (trace (snd (run_migrations dry_run True migrations_dir db))) =
           (if dry_run then []
            else map fst (filter (\<lambda>f. extract_migration_id (fst f) \<notin> set (rows db))
                            (take k files)))"
    if "get_migration_files migrations_dir = Inr files"
    using run_migrations_catalog [OF that, of dry_run db] by (simp only: pending_def)
  from id run loop show ?thesis by (simp only: 1 2 fst_conv snd_conv) simp
qed

text \<open>
  A table that records \<open>001_init\<close> and \<open>003_idx\<close>, and a directory of four scripts and
  a note: \<open>001_init.sql\<close> and \<open>003_idx.sql\<close> are skipped, wherever they stand in the
  catalog; \<open>003_IDX.sql\<close>, whose name differs from a recorded one in case only, is
  applied like \<open>002_users.sql\<close>.
\<close>

theorem identity_and_skip_catalog_witness:
  "extract_migration_id ''001_initial_schema.sql'' = ''001_initial_schema'' \<and>
   get_migration_files
     (Some [(''003_idx.sql'', Some [Create ''i'']), (''001_init.sql'', Some [Create ''t'']),
            (''notes.txt'', None), (''003_IDX.sql'', Some [Create ''I'']),
            (''002_users.sql'', Some [Create ''u''])]) =
     Inr [(''001_init.sql'', Some [Create ''t'']), (''002_users.sql'', Some [Create ''u'']),
          (''003_IDX.sql'', Some [Create ''I'']), (''003_idx.sql'', Some [Create ''i''])] \<and>
   fst (run_migrations False True
     (Some [(''003_idx.sql'', Some [Create ''i'']), (''001_init.sql'', Some [Create ''t'']),
            (''notes.txt'', None), (''003_IDX.sql'', Some [Create ''I'']),
            (''002_users.sql'', Some [Create ''u''])])
     \<lparr>objects = [''t'', ''i''], schema_migrations = Some [''001_init'', ''003_idx'']\<rparr>) =
     Return 0 \<and>
   skipped (trace (snd (run_migrations False True
     (Some [(''003_idx.sql'', Some [Create ''i'']), (''001_init.sql'', Some [Create ''t'']),
            (''notes.txt'', None), (''003_IDX.sql'', Some [Create ''I'']),
            (''002_users.sql'', Some [Create ''u''])])
     \<lparr>objects = [''t'', ''i''], schema_migrations = Some [''001_init'', ''003_idx'']\<rparr>))) =
     [''001_init.sql'', ''003_idx.sql''] \<and>
   attempted (trace (snd (run_migrations False True
     (Some [(''003_idx.sql'', Some [Create ''i'']), (''001_init.sql'', Some [Create ''t'']),
            (''notes.txt'', None), (''003_IDX.sql'', Some [Create ''I'']),
            (''002_users.sql'', Some [Create ''u''])])
     \<lparr>objects = [''t'', ''i''], schema_migrations = Some [''001_init'', ''003_idx'']\<rparr>))) =
     [''002_users.sql'', ''003_IDX.sql''] \<and>
   committed (snd (snd (apply_pending False {''001_init'', ''003_idx''}
     [(''002_users.sql'', Some [Create ''u'']), (''003_IDX.sql'', Some [Create ''I''])]
     (0, 0, loop_entry False
        \<lparr>objects = [''t'', ''i''], schema_migrations = Some [''001_init'', ''003_idx'']\<rparr> 4)))) =
   committed (snd (snd (apply_pending False {''001_init'', ''003_idx''}
     [(''001_init.sql'', Some [Create ''t'']), (''002_users.sql'', Some [Create ''u'']),
      (''003_IDX.sql'', Some [Create ''I'']), (''003_idx.sql'', Some [Create ''i''])]
     (0, 0, loop_entry False
        \<lparr>objects = [''t'', ''i''], schema_migrations = Some [''001_init'', ''003_idx'']\<rparr> 4))))"
proof -
  let ?dir = "Some [(''003_idx.sql'', Some [Create ''i'']), (''001_init.sql'', Some [Create ''t'']),
            (''notes.txt'', None), (''003_IDX.sql'', Some [Create ''I'']),
            (''002_users.sql'', Some [Create ''u''])]"
  let ?files = "[(''001_init.sql'', Some [Create ''t'']), (''002_users.sql'', Some [Create ''u'']),
          (''003_IDX.sql'', Some [Create ''I'']), (''003_idx.sql'', Some [Create ''i''])]"
  let ?db = "\<lparr>objects = [''t'', ''i''], schema_migrations = Some [''001_init'', ''003_idx'']\<rparr>"
  have files: "get_migration_files ?dir = Inr ?files"
    by code_simp
  have ok: "fst (run_migrations False True ?dir ?db) = Return 0"
    by code_simp
  have ids: "extract_migration_id ''001_init.sql'' = ''001_init''"
    "extract_migration_id ''002_users.sql'' = ''002_users''"
    "extract_migration_id ''003_IDX.sql'' = ''003_IDX''"
    "extract_migration_id ''003_idx.sql'' = ''003_idx''"
    by (simp_all add: extract_migration_id_def stem_def)
  have p: "pending {''001_init'', ''003_idx''} ?files =
      [(''002_users.sql'', Some [Create ''u'']), (''003_IDX.sql'', Some [Create ''I''])]"
    by (simp add: pending_def ids)
  note t = identity_and_skip_catalog [where base = "''001_initial_schema''"
      and migrations_dir = ?dir and files = ?files and dry_run = False and db = ?db
      and applied_migrations = "{''001_init'', ''003_idx''}" and fs = ?files
      and ac = 0 and fc = 0 and w = "loop_entry False ?db 4"]
  from t have "extract_migration_id ''001_initial_schema.sql'' = ''001_initial_schema''"
    by simp
  moreover from t files ok obtain k where "k \<le> length ?files" "k = length ?files"
    "skipped (trace (snd (run_migrations False True ?dir ?db))) =
       map fst (filter (\<lambda>f. extract_migration_id (fst f) \<in> set (rows ?db)) (take k ?files))"
    "attempted (trace (snd (run_migrations False True ?dir ?db))) =
       map fst (filter (\<lambda>f. extract_migration_id (fst f) \<notin> set (rows ?db)) (take k ?files))"
    by auto
  then have "skipped (trace (snd (run_migrations False True ?dir ?db))) =
       [''001_init.sql'', ''003_idx.sql'']"
    "attempted (trace (snd (run_migrations False True ?dir ?db))) =
       [''002_users.sql'', ''003_IDX.sql'']"
    by (simp_all add: rows_def ids)
  moreover from t p have "committed (snd (snd (apply_pending False {''001_init'', ''003_idx''}
     [(''002_users.sql'', Some [Create ''u'']), (''003_IDX.sql'', Some [Create ''I''])]
     (0, 0, loop_entry False ?db 4)))) =
   committed (snd (snd (apply_pending False {''001_init'', ''003_idx''} ?files
     (0, 0, loop_entry False ?db 4))))"
    by (simp del: apply_pending.simps)
  ultimately show ?thesis using files ok by (simp del: apply_pending.simps)
qed

subsection \<open>C4: what a failing script leaves behind\<close>




subsection \<open>C1: rows are recorded after the commit of their script\<close>

lemma inserts_checked_append:
  "inserts_checked h (xs @ ys) = (inserts_checked h xs \<and> inserts_checked (rev xs @ h) ys)"
  by (induction xs arbitrary: h) auto






lemma summary_inserts [simp]:
  "inserts_follow_commit (trace (summary d ac fc w)) = inserts_follow_commit (trace w)"
  by (simp add: summary_def inserts_follow_commit_def inserts_checked_append)

lemma loop_entry_inserts [simp]: "inserts_follow_commit (trace (loop_entry d db n))"
  by (simp add: loop_entry_def inserts_follow_commit_def)

lemma rows_update [simp]: "rows (db\<lparr>schema_migrations := Some rs\<rparr>) = rs"
  by (simp add: rows_def)

lemma rows_record [simp]: "rows \<lparr>objects = os, schema_migrations = Some rs\<rparr> = rs"
  by (simp add: rows_def)



subsection \<open>C8: a file that cannot be read\<close>

text \<open>
  Claim C8 fails on the code: files are read one at a time, each when the loop applies
  it, so the migrations before an unreadable file have been executed and recorded when
  the run reports the error. Here \<open>001_a.sql\<close> is applied and recorded, then
  \<open>002_b.sql\<close> cannot be read, and the run returns 1.
\<close>

theorem unreadable_file_counterexample:
  "fst (run_migrations False True
     (Some [(''001_a.sql'', Some [Create ''t'']), (''002_b.sql'', None)])
     \<lparr>objects = [], schema_migrations = None\<rparr>) = Return 1 \<and>
   failed (trace (snd (run_migrations False True
     (Some [(''001_a.sql'', Some [Create ''t'']), (''002_b.sql'', None)])
     \<lparr>objects = [], schema_migrations = None\<rparr>))) = [''002_b.sql''] \<and>
   executed (trace (snd (run_migrations False True
     (Some [(''001_a.sql'', Some [Create ''t'']), (''002_b.sql'', None)])
     \<lparr>objects = [], schema_migrations = None\<rparr>))) = [[Create ''t'']] \<and>
   committed (snd (run_migrations False True
     (Some [(''001_a.sql'', Some [Create ''t'']), (''002_b.sql'', None)])
     \<lparr>objects = [], schema_migrations = None\<rparr>)) =
     \<lparr>objects = [''t''], schema_migrations = Some [''001_a'']\<rparr>"
  by code_simp

text \<open>
  Claim C8 as amended. In a run that is not a dry run, when a pending migration's file
  cannot be read and the files before it in the catalog have all been skipped or applied,
  the run fails at that file: it is opened, nothing of it is executed or recorded, the
  transaction is rolled back, no later file is touched and the run returns 1. What the
  earlier migrations committed stays committed.
\<close>

theorem unreadable_file_fails_at_its_turn:
  assumes "reachable"
    and "get_migration_files migrations_dir = Inr (pre @ f # post)"
    and "snd f = None"
    and "extract_migration_id (fst f) \<notin> set (rows db)"
    and "apply_pending False (set (rows db)) pre
           (0, 0, loop_entry False db (length (pre @ f # post))) = (ac, 0, w1)"
  shows "fst (run_migrations False reachable migrations_dir db) = Return 1 \<and>
         committed (snd (run_migrations False reachable migrations_dir db)) = committed w1 \<and>
         trace (snd (run_migrations False reachable migrations_dir db)) =
           trace w1 @ [Print_Applying (fst f), File_Open (fst f), Sql_Rollback,
                       Print_Unexpected (fst f) ''cannot read file'', Print_Stopping,
                       Print_SummaryApplied ac, Print_SummaryFailed 1, Conn_Close]"
proof -
  note u = apply_migration_unreadable [OF assms(3), of w1]
  have "apply_pending False (set (rows db)) (f # post) (ac, 0, w1) =
          (ac, 0 + 1, emit Print_Stopping (snd (apply_migration w1 f)))"
    using u(1) by (intro apply_pending_stop assms(4)) simp
  then have "apply_pending False (set (rows db)) (pre @ f # post)
               (0, 0, loop_entry False db (length (pre @ f # post))) =
             (ac, 1, emit Print_Stopping (snd (apply_migration w1 f)))"
    using assms(5) by (simp add: apply_pending_append del: apply_pending.simps)
  with run_migrations_loop [OF assms(2), of False db] assms(1) u
  show ?thesis by (simp add: summary_def)
qed

text \<open>The middle one of three files is unreadable.\<close>

theorem unreadable_file_fails_at_its_turn_witness:
  "get_migration_files
     (Some [(''001_a.sql'', Some [Create ''t'']), (''002_b.sql'', None),
            (''003_c.sql'', Some [Create ''u''])]) =
     Inr ([(''001_a.sql'', Some [Create ''t''])] @ (''002_b.sql'', None) #
          [(''003_c.sql'', Some [Create ''u''])]) \<and>
   extract_migration_id ''002_b.sql'' \<notin> set (rows \<lparr>objects = [], schema_migrations = None\<rparr>) \<and>
   fst (run_migrations False True
     (Some [(''001_a.sql'', Some [Create ''t'']), (''002_b.sql'', None),
            (''003_c.sql'', Some [Create ''u''])])
     \<lparr>objects = [], schema_migrations = None\<rparr>) = Return 1 \<and>
   committed (snd (run_migrations False True
     (Some [(''001_a.sql'', Some [Create ''t'']), (''002_b.sql'', None),
            (''003_c.sql'', Some [Create ''u''])])
     \<lparr>objects = [], schema_migrations = None\<rparr>)) =
     \<lparr>objects = [''t''], schema_migrations = Some [''001_a'']\<rparr>"
proof -
  let ?f1 = "(''001_a.sql'', Some [Create ''t''])"
  let ?f2 = "(''002_b.sql'', None :: script option)"
  let ?f3 = "(''003_c.sql'', Some [Create ''u''])"
  let ?db = "\<lparr>objects = [], schema_migrations = None\<rparr>"
  let ?pre = "apply_pending False (set (rows ?db)) [?f1]
                (0, 0, loop_entry False ?db (length ([?f1] @ ?f2 # [?f3])))"
  have h2: "get_migration_files (Some [?f1, ?f2, ?f3]) = Inr ([?f1] @ ?f2 # [?f3])"
    by code_simp
  have h3: "snd ?f2 = None" by simp
  have h4: "extract_migration_id (fst ?f2) \<notin> set (rows ?db)"
    by (simp add: rows_def)
  have "fst (snd ?pre) = 0" by code_simp
  then have h5: "?pre = (fst ?pre, 0, snd (snd ?pre))"
    by (simp add: prod_eq_iff)
  have c: "committed (snd (snd ?pre)) = \<lparr>objects = [''t''], schema_migrations = Some [''001_a'']\<rparr>"
    by code_simp
  from unreadable_file_fails_at_its_turn [OF TrueI h2 h3 h4 h5] h2 h4 c
  show ?thesis by simp
qed

subsection \<open>C6: running twice\<close>

text \<open>
  Claim C6 fails on the code in its last part. The runner never deletes a row, so a row
  recorded for a file that is no longer in the directory (one that was renamed, say)
  stays in the table: here the table holds \<open>000_old\<close>, the directory holds
  \<open>001_a.sql\<close> only, the first run succeeds, the second skips the file, and the table
  has two rows for one migration file.
\<close>

theorem idempotence_row_count_counterexample:
  "fst (run_migrations False True (Some [(''001_a.sql'', Some [Create ''t''])])
     \<lparr>objects = [], schema_migrations = Some [''000_old'']\<rparr>) = Return 0 \<and>
   committed (snd (run_migrations False True (Some [(''001_a.sql'', Some [Create ''t''])])
     \<lparr>objects = [], schema_migrations = Some [''000_old'']\<rparr>)) =
     \<lparr>objects = [''t''], schema_migrations = Some [''000_old'', ''001_a'']\<rparr> \<and>
   fst (run_migrations False True (Some [(''001_a.sql'', Some [Create ''t''])])
     \<lparr>objects = [''t''], schema_migrations = Some [''000_old'', ''001_a'']\<rparr>) = Return 0 \<and>
   skipped (trace (snd (run_migrations False True (Some [(''001_a.sql'', Some [Create ''t''])])
     \<lparr>objects = [''t''], schema_migrations = Some [''000_old'', ''001_a'']\<rparr>))) =
     [''001_a.sql''] \<and>
   length (rows (committed (snd (run_migrations False True
     (Some [(''001_a.sql'', Some [Create ''t''])])
     \<lparr>objects = [''t''], schema_migrations = Some [''000_old'', ''001_a'']\<rparr>)))) = 2 \<and>
   get_migration_files (Some [(''001_a.sql'', Some [Create ''t''])]) =
     Inr [(''001_a.sql'', Some [Create ''t''])] \<and>
   length [(''001_a.sql'', Some [Create ''t''])] = 1"
  by code_simp

lemma apply_migration_success:
  assumes "fst (apply_migration w f)" and "working w = committed w"
  shows "\<exists>rs. schema_migrations (working w) = Some rs \<and>
           schema_migrations (committed (snd (apply_migration w f))) =
             Some (if extract_migration_id (fst f) \<in> set rs then rs
                   else rs @ [extract_migration_id (fst f)]) \<and>
           working (snd (apply_migration w f)) = committed (snd (apply_migration w f))"
proof (rule apply_migration_cases [where f = f and w = w])
  assume "snd f = None"
  from apply_migration_unreadable(1) [OF this, of w] assms show ?thesis by simp
next
  fix b e assume "snd f = Some b" "fst (cursor_execute b w) = Some e"
  from apply_migration_script_error(1) [OF this] assms show ?thesis by simp
next
  fix b assume "snd f = Some b" "fst (cursor_execute b w) = None"
    "schema_migrations (working (snd (cursor_execute b w))) = None"
  from apply_migration_no_table(1) [OF this] assms show ?thesis by simp
next
  fix b rs assume h: "snd f = Some b" "fst (cursor_execute b w) = None"
    "schema_migrations (working (snd (cursor_execute b w))) = Some rs"
  from apply_migration_ok [OF h] h(3) cursor_execute_table [OF assms(2), of b] assms(2)
  show ?thesis by simp
qed

lemma apply_pending_all_applied:
  assumes "apply_pending False a fs (ac, fc, w) = (ac', fc, w')"
    and "working w = committed w"
    and "schema_migrations (committed w) = Some rs"
  shows "working w' = committed w' \<and>
         (\<exists>rs'. schema_migrations (committed w') = Some rs' \<and>
                set rs' = set rs \<union> extract_migration_id ` fst ` set (pending a fs) \<and>
                (distinct rs \<longrightarrow> distinct rs'))"
  using assms
proof (induction fs arbitrary: ac w rs)
  case Nil
  then show ?case by simp
next
  case (Cons f fs)
  show ?case
  proof (cases "extract_migration_id (fst f) \<in> a")
    case True
    have "apply_pending False a fs (ac, fc, emit (Print_Skipping (fst f)) w) = (ac', fc, w')"
      using Cons.prems(1) apply_pending_skip [OF True] by metis
    from Cons.IH [OF this, of rs] Cons.prems(2,3) True show ?thesis
      by (simp add: pending_Cons)
  next
    case False
    show ?thesis
    proof (cases "fst (apply_migration w f)")
      case True
      let ?w1 = "snd (apply_migration w f)"
      let ?i = "extract_migration_id (fst f)"
      from apply_migration_success [OF True Cons.prems(2)] Cons.prems(2,3)
      have w1: "working ?w1 = committed ?w1"
        "schema_migrations (committed ?w1) = Some (if ?i \<in> set rs then rs else rs @ [?i])"
        by auto
      have "apply_pending False a fs (ac + 1, fc, ?w1) = (ac', fc, w')"
        using Cons.prems(1) apply_pending_applied [OF False True] by metis
      from Cons.IH [OF this w1] obtain rs' where
        "working w' = committed w'" "schema_migrations (committed w') = Some rs'"
        "set rs' = set (if ?i \<in> set rs then rs else rs @ [?i]) \<union>
                   extract_migration_id ` fst ` set (pending a fs)"
        "distinct (if ?i \<in> set rs then rs else rs @ [?i]) \<longrightarrow> distinct rs'"
        by (elim exE conjE)
      then have "working w' = committed w' \<and>
         (schema_migrations (committed w') = Some rs' \<and>
          set rs' = set rs \<union> extract_migration_id ` fst ` set (pending a (f # fs)) \<and>
          (distinct rs \<longrightarrow> distinct rs'))"
        using False by (auto simp add: pending_Cons)
      then show ?thesis by blast
    next
      case fails: False
      have "(ac', fc, w') = (ac, fc + 1, emit Print_Stopping (snd (apply_migration w f)))"
        using Cons.prems(1) apply_pending_stop [OF False fails] by metis
      then show ?thesis by simp
    qed
  qed
qed

lemma apply_pending_all_skipped:
  assumes "\<forall>f \<in> set fs. extract_migration_id (fst f) \<in> a"
  shows "fst (apply_pending d a fs (ac, fc, w)) = ac \<and>
         fst (snd (apply_pending d a fs (ac, fc, w))) = fc \<and>
         committed (snd (snd (apply_pending d a fs (ac, fc, w)))) = committed w \<and>
         working (snd (snd (apply_pending d a fs (ac, fc, w)))) = working w \<and>
         skipped (trace (snd (snd (apply_pending d a fs (ac, fc, w))))) =
           skipped (trace w) @ map fst fs \<and>
         attempted (trace (snd (snd (apply_pending d a fs (ac, fc, w))))) =
           attempted (trace w) \<and>
         executed (trace (snd (snd (apply_pending d a fs (ac, fc, w))))) =
           executed (trace w) \<and>
         inserted (trace (snd (snd (apply_pending d a fs (ac, fc, w))))) =
           inserted (trace w)"
  using assms by (induction fs arbitrary: w) simp_all

lemma table_kept: "schema_migrations db = Some rs \<Longrightarrow> db\<lparr>schema_migrations := Some rs\<rparr> = db"
  by (cases db) simp

text \<open>
  Two files of one directory can have the same identity, since a name that is nothing
  but the extension keeps it.
\<close>

lemma identities_can_collide: "extract_migration_id ''.sql'' = extract_migration_id ''.sql.sql''"
  by (simp add: extract_migration_id_def stem_def)

text \<open>
  Claim C6 as amended, for migration scripts that leave \<open>schema_migrations\<close> alone, as
  every script of this model does. After a run that is not a dry run and returns 0, with
  the database reachable and the directory present, a second such run on the database the
  first one left returns 0, skips every file of the catalog in order, opens no file,
  inserts no row and leaves the database as it was. The identities in the table after the
  first run are those it held before together with those of the catalog's files; their
  number is the number of migration files when the rows before the first run were
  distinct identities of files of the catalog (none, on a fresh database) and no two files
  have the same identity.
\<close>

theorem second_run_skips_all:
  assumes "reachable"
    and "get_migration_files migrations_dir = Inr files"
    and "run_migrations False reachable migrations_dir db = (Return 0, w1)"
  shows "fst (run_migrations False reachable migrations_dir (committed w1)) = Return 0 \<and>
         skipped (trace (snd (run_migrations False reachable migrations_dir (committed w1)))) =
           map fst files \<and>
         attempted (trace (snd (run_migrations False reachable migrations_dir (committed w1)))) =
           [] \<and>
         inserted (trace (snd (run_migrations False reachable migrations_dir (committed w1)))) =
           [] \<and>
         committed (snd (run_migrations False reachable migrations_dir (committed w1))) =
           committed w1 \<and>
         set (rows (committed w1)) =
           set (rows db) \<union> extract_migration_id ` fst ` set files \<and>
         (distinct (rows db) \<and>
          set (rows db) \<subseteq> extract_migration_id ` fst ` set files \<and>
          distinct (map (extract_migration_id \<circ> fst) files) \<longrightarrow>
            length (rows (committed w1)) = length files)"
proof (cases "files = []")
  case True
  with assms have "committed w1 = db"
    by (auto simp add: run_migrations_no_files)
  with True assms show ?thesis
    by (auto simp add: run_migrations_no_files)
next
  case False
  let ?n = "length files"
  let ?ids = "extract_migration_id ` fst ` set files"
  obtain ac fc w3 where loop:
    "apply_pending False (set (rows db)) files (0, 0, loop_entry False db ?n) = (ac, fc, w3)"
    by (cases "apply_pending False (set (rows db)) files (0, 0, loop_entry False db ?n)") auto
  from assms run_migrations_loop [OF assms(2) False, of False db] loop
  have fc: "fc = 0" and w1: "w1 = summary False ac fc w3"
    by (auto split: if_splits)
  from apply_pending_all_applied [of "set (rows db)" files 0 0 "loop_entry False db ?n" ac w3
      "rows db"] loop fc
  obtain rs' where rs':
    "schema_migrations (committed w3) = Some rs'"
    "set rs' = set (rows db) \<union> extract_migration_id ` fst ` set (pending (set (rows db)) files)"
    "distinct (rows db) \<longrightarrow> distinct rs'"
    by auto
  have c1: "committed w1 = committed w3" using w1 by simp
  have r1: "rows (committed w1) = rs'" using c1 rs'(1) by (simp add: rows_def)
  have all: "set rs' = set (rows db) \<union> ?ids"
    using rs'(2) by (auto simp add: pending_def)
  then have skip: "\<forall>f \<in> set files. extract_migration_id (fst f) \<in> set (rows (committed w1))"
    using r1 by auto
  have keep: "(committed w1)\<lparr>schema_migrations := Some (rows (committed w1))\<rparr> = committed w1"
    using c1 rs'(1) r1 by (simp add: table_kept)
  note s = apply_pending_all_skipped [OF skip, of False 0 0 "loop_entry False (committed w1) ?n"]
  have run2: "run_migrations False reachable migrations_dir (committed w1) =
      (Return 0, summary False 0 0
         (snd (snd (apply_pending False (set (rows (committed w1))) files
                      (0, 0, loop_entry False (committed w1) ?n)))))"
    using assms(1) run_migrations_loop [OF assms(2) False, of False "committed w1"] s
    by (simp add: case_prod_beta)
  have count: "length (rows (committed w1)) = length files"
    if "distinct (rows db)" "set (rows db) \<subseteq> ?ids"
      "distinct (map (extract_migration_id \<circ> fst) files)"
  proof -
    have "distinct rs'" using rs'(3) that(1) by simp
    then have "length rs' = card (set rs')" by (simp add: distinct_card)
    also have "set rs' = set (map (extract_migration_id \<circ> fst) files)"
      using all that(2) by auto
    also have "card \<dots> = length files"
      using that(3) distinct_card by fastforce
    finally show ?thesis using r1 by simp
  qed
  from run2 s keep all r1 count show ?thesis by simp
qed

text \<open>Two migrations against a fresh database, run twice.\<close>

theorem second_run_skips_all_witness:
  "get_migration_files
     (Some [(''002_b.sql'', Some [Create ''u'']), (''001_a.sql'', Some [Create ''t''])]) =
     Inr [(''001_a.sql'', Some [Create ''t'']), (''002_b.sql'', Some [Create ''u''])] \<and>
   run_migrations False True
     (Some [(''002_b.sql'', Some [Create ''u'']), (''001_a.sql'', Some [Create ''t''])])
     \<lparr>objects = [], schema_migrations = None\<rparr> =
     (Return 0, snd (run_migrations False True
        (Some [(''002_b.sql'', Some [Create ''u'']), (''001_a.sql'', Some [Create ''t''])])
        \<lparr>objects = [], schema_migrations = None\<rparr>)) \<and>
   committed (snd (run_migrations False True
     (Some [(''002_b.sql'', Some [Create ''u'']), (''001_a.sql'', Some [Create ''t''])])
     \<lparr>objects = [], schema_migrations = None\<rparr>)) =
     \<lparr>objects = [''t'', ''u''], schema_migrations = Some [''001_a'', ''002_b'']\<rparr> \<and>
   skipped (trace (snd (run_migrations False True
     (Some [(''002_b.sql'', Some [Create ''u'']), (''001_a.sql'', Some [Create ''t''])])
     \<lparr>objects = [''t'', ''u''], schema_migrations = Some [''001_a'', ''002_b'']\<rparr>))) =
     [''001_a.sql'', ''002_b.sql''] \<and>
   committed (snd (run_migrations False True
     (Some [(''002_b.sql'', Some [Create ''u'']), (''001_a.sql'', Some [Create ''t''])])
     \<lparr>objects = [''t'', ''u''], schema_migrations = Some [''001_a'', ''002_b'']\<rparr>)) =
     \<lparr>objects = [''t'', ''u''], schema_migrations = Some [''001_a'', ''002_b'']\<rparr>"
proof -
  let ?dir = "Some [(''002_b.sql'', Some [Create ''u'']), (''001_a.sql'', Some [Create ''t''])]"
  let ?db = "\<lparr>objects = [], schema_migrations = None\<rparr>"
  have files: "get_migration_files ?dir =
      Inr [(''001_a.sql'', Some [Create ''t'']), (''002_b.sql'', Some [Create ''u''])]"
    by code_simp
  have "fst (run_migrations False True ?dir ?db) = Return 0"
    by code_simp
  then have run1: "run_migrations False True ?dir ?db =
      (Return 0, snd (run_migrations False True ?dir ?db))"
    by (simp add: prod_eq_iff)
  have c: "committed (snd (run_migrations False True ?dir ?db)) =
      \<lparr>objects = [''t'', ''u''], schema_migrations = Some [''001_a'', ''002_b'']\<rparr>"
    by code_simp
  from second_run_skips_all [OF TrueI files run1] files run1 c
  show ?thesis by simp
qed

end
